theory Spec2Isabelle
  imports Complex_Main
begin

section \<open>Sensor feed (sensors.py)\<close>

text \<open>
  The numbers among the Python floats are modelled as real numbers: comparisons,
  \<open>min\<close>, \<open>max\<close> and \<open>abs\<close> are the same on both, sums and products are taken
  without rounding. The values that the feed parses and stores are of the type
  \<open>pyfloat\<close> below, which has the infinities and nan beside the numbers; the game
  logic is modelled on the readings that are numbers. Every call of \<open>time.time()\<close> is
  an input of the function that makes the call.
\<close>

subsection \<open>Strings\<close>

text \<open>\<open>bytes.decode("ascii", errors="ignore")\<close>: bytes from 0x80 on are dropped.\<close>

definition decode_ascii :: "string \<Rightarrow> string" where
  "decode_ascii raw = filter (\<lambda>c. \<not> digit7 c) raw"

text \<open>The characters \<open>str.strip()\<close> removes from an ASCII string.\<close>

definition isspace :: "char \<Rightarrow> bool" where
  "isspace c \<longleftrightarrow> c \<in> set [CHR 0x09, CHR 0x0A, CHR 0x0B, CHR 0x0C, CHR 0x0D,
                         CHR 0x1C, CHR 0x1D, CHR 0x1E, CHR 0x1F, CHR 0x20]"

definition strip :: "string \<Rightarrow> string" where
  "strip s = rev (dropWhile isspace (rev (dropWhile isspace s)))"

text \<open>\<open>line.split(",", 1)\<close> on a line that contains a comma.\<close>

definition split_comma :: "string \<Rightarrow> string \<times> string" where
  "split_comma line =
     (takeWhile (\<lambda>c. c \<noteq> CHR '','') line, tl (dropWhile (\<lambda>c. c \<noteq> CHR '','') line))"

text \<open>The exceptions of Python that the modelled code can raise.\<close>

datatype py_error = ValueError | NameError | ZeroDivisionError

text \<open>
  \<open>str(n)\<close> for a Python int: the decimal digits, after a minus sign for a negative
  number. An int of more than 4300 digits is not converted: \<open>str\<close> raises
  \<open>ValueError\<close> (the default limit of the interpreter on int to string conversion).
\<close>

definition digit_char :: "nat \<Rightarrow> char" where
  "digit_char d = ''0123456789'' ! d"

fun digits :: "nat \<Rightarrow> string" where
  "digits n = (if n < 10 then [digit_char n] else digits (n div 10) @ [digit_char (n mod 10)])"

declare digits.simps [simp del]

definition max_str_digits :: nat where
  "max_str_digits = 4300"

definition str_int :: "int \<Rightarrow> py_error + string" where
  "str_int i =
     (let ds = digits (nat \<bar>i\<bar>)
      in if length ds > max_str_digits then Inl ValueError
         else Inr (if i < 0 then CHR ''-'' # ds else ds))"

text \<open>
  A Python float: a number, an infinity or nan. The numbers are modelled as reals
  (see above); \<open>mul10\<close> is \<open>cm * 10\<close>.
\<close>

datatype pyfloat = Fin real | PInf | NInf | NaN

fun mul10 :: "pyfloat \<Rightarrow> pyfloat" where
  "mul10 (Fin x) = Fin (x * 10)"
| "mul10 PInf = PInf"
| "mul10 NInf = NInf"
| "mul10 NaN = NaN"


text \<open>
  \<open>float(s)\<close> is a builtin of Python, not code of this program: the functions that call
  it take it as the parameter \<open>pf\<close>, with \<open>None\<close> for a \<open>ValueError\<close>, and the theorems
  hold for every such reader. \<open>float_dec\<close> is the reader used where a run is evaluated:
  it reads the unsigned decimal numerals (digits around at most one point, at least one
  digit), which are all the strings that can be typed into a chart field, so that the
  chart side works with numbers. \<open>float_text\<close> is the reader used for the lines of the
  serial port: it reads \<open>nan\<close>, \<open>inf\<close> and \<open>-inf\<close> as well, which \<open>float\<close> accepts.
\<close>

definition digit_val :: "char \<Rightarrow> nat option" where
  "digit_val c = map_of (zip ''0123456789'' [0 ..< 10]) c"

fun digits_val :: "string \<Rightarrow> nat \<Rightarrow> nat option" where
  "digits_val [] acc = Some acc"
| "digits_val (c # cs) acc =
     (case digit_val c of None \<Rightarrow> None | Some d \<Rightarrow> digits_val cs (10 * acc + d))"

definition float_dec :: "string \<Rightarrow> real option" where
  "float_dec s =
     (let ip = takeWhile (\<lambda>c. c \<noteq> CHR ''.'') s;
          rest = dropWhile (\<lambda>c. c \<noteq> CHR ''.'') s;
          fp = (if rest = [] then [] else tl rest)
      in if ip = [] \<and> fp = [] then None
         else case (digits_val ip 0, digits_val fp 0) of
                (Some a, Some b) \<Rightarrow> Some (real a + real b / 10 ^ length fp)
              | _ \<Rightarrow> None)"

definition float_text :: "string \<Rightarrow> pyfloat option" where
  "float_text s =
     (if s = ''nan'' then Some NaN
      else if s = ''inf'' then Some PInf
      else if s = ''-inf'' then Some NInf
      else map_option Fin (float_dec s))"

subsection \<open>class LaserArray\<close>

text \<open>
  \<open>self.dist\<close> and \<open>self.last_update\<close> are dicts from the id string to a float or
  \<open>None\<close>. \<open>dict_get\<close> is \<open>d.get(k)\<close>: \<open>None\<close> for a missing key and for a key
  bound to \<open>None\<close>. The values of \<open>self.last_update\<close> are values of
  \<open>time.time()\<close>, which are numbers.
\<close>

definition dict_get :: "('k \<rightharpoonup> 'v option) \<Rightarrow> 'k \<Rightarrow> 'v option" where
  "dict_get d k = (case d k of None \<Rightarrow> None | Some v \<Rightarrow> v)"

record LaserArray =
  dist_mm :: "string \<rightharpoonup> pyfloat option"
  last_update :: "string \<rightharpoonup> real option"

text \<open>The two dicts as \<open>__init__\<close> creates them.\<close>

definition LaserArray_init :: LaserArray where
  "LaserArray_init =
     \<lparr> dist_mm = [''1'' \<mapsto> None, ''2'' \<mapsto> None, ''3'' \<mapsto> None],
       last_update = [''1'' \<mapsto> None, ''2'' \<mapsto> None, ''3'' \<mapsto> None] \<rparr>"

text \<open>What \<open>self.ser.readline()\<close> gives in one iteration of the loop of \<open>_reader\<close>.\<close>

datatype serial_read = SerialException | Line string

text \<open>
  One iteration of the \<open>while True\<close> loop of \<open>_reader\<close>, run without interruption;
  \<open>now\<close> is the value of \<open>time.time()\<close> in the iteration.
\<close>

definition reader_step :: "(string \<Rightarrow> pyfloat option) \<Rightarrow> real \<Rightarrow> serial_read \<Rightarrow> LaserArray \<Rightarrow> LaserArray" where
  "reader_step pf now inp self =
     (case inp of
        SerialException \<Rightarrow> self
      | Line raw \<Rightarrow>
          (let line = strip (decode_ascii raw) in
           if line = [] \<or> CHR '','' \<notin> set line then self
           else (let (sid, val) = split_comma line in
                 case pf val of
                   None \<Rightarrow> self
                 | Some cm \<Rightarrow>
                     self\<lparr> dist_mm := (dist_mm self)(sid \<mapsto> Some (mul10 cm)),
                           last_update := (last_update self)(sid \<mapsto> Some now) \<rparr>)))"

text \<open>
  \<open>read_distance(idx, timeout)\<close>, with \<open>now\<close> the value of \<open>time.time()\<close>, run
  without interruption. \<open>read_result\<close> is its \<open>if\<close> and \<open>return\<close> (lines 74 to 78)
  on the two values it has loaded.
\<close>

definition read_result :: "pyfloat option \<Rightarrow> real option \<Rightarrow> real \<Rightarrow> real \<Rightarrow> pyfloat option" where
  "read_result val lst timeout now =
     (case (val, lst) of
        (Some v, Some l) \<Rightarrow> if now - l > timeout then None else val
      | _ \<Rightarrow> val)"

definition read_distance :: "LaserArray \<Rightarrow> int \<Rightarrow> real \<Rightarrow> real \<Rightarrow> py_error + pyfloat option" where
  "read_distance self idx timeout now =
     (case str_int (idx + 1) of
        Inl e \<Rightarrow> Inl e
      | Inr sid \<Rightarrow>
          (let val = dict_get (dist_mm self) sid;
               last = dict_get (last_update self) sid
           in Inr (read_result val last timeout now)))"

text \<open>The reader loop over a finite run of timed reads.\<close>

fun reader_run :: "(string \<Rightarrow> pyfloat option) \<Rightarrow> (real \<times> serial_read) list \<Rightarrow> LaserArray \<Rightarrow> LaserArray" where
  "reader_run pf [] self = self"
| "reader_run pf ((now, inp) # rest) self = reader_run pf rest (reader_step pf now inp self)"

text \<open>
  The frame a read carries, in the words of the protocol: the stripped line has the
  separator and \<open>float\<close> accepts the text after the first separator; the id is the text
  before it. \<open>latest\<close> is the time and the value of the last frame of a run that carries
  the id \<open>sid\<close>.
\<close>

definition frame_of :: "(string \<Rightarrow> pyfloat option) \<Rightarrow> serial_read \<Rightarrow> (string \<times> pyfloat) option" where
  "frame_of pf inp =
     (case inp of
        SerialException \<Rightarrow> None
      | Line raw \<Rightarrow>
          (let line = strip (decode_ascii raw) in
           if CHR '','' \<in> set line
           then (case pf (snd (split_comma line)) of
                   None \<Rightarrow> None
                 | Some cm \<Rightarrow> Some (fst (split_comma line), cm))
           else None))"

fun latest :: "(string \<Rightarrow> pyfloat option) \<Rightarrow> string \<Rightarrow> (real \<times> serial_read) list \<Rightarrow> (real \<times> pyfloat) option" where
  "latest pf sid [] = None"
| "latest pf sid ((t, inp) # rest) =
     (case latest pf sid rest of
        Some r \<Rightarrow> Some r
      | None \<Rightarrow>
          (case frame_of pf inp of
             None \<Rightarrow> None
           | Some (s, cm) \<Rightarrow> if s = sid then Some (t, cm) else None))"



text \<open>A run in which every frame that is stored carries one of the ids 1, 2, 3.\<close>

definition known_ids :: "(string \<Rightarrow> pyfloat option) \<Rightarrow> (real \<times> serial_read) list \<Rightarrow> bool" where
  "known_ids pf frames \<longleftrightarrow>
     list_all (\<lambda>(t, inp). case frame_of pf inp of
                            None \<Rightarrow> True
                          | Some (sid, cm) \<Rightarrow> sid \<in> {''1'', ''2'', ''3''}) frames"

subsection \<open>The two threads, statement by statement\<close>

text \<open>
  The reader thread stores a frame with two statements (lines 60 and 61) and
  \<open>read_distance\<close> loads the entry with two statements (lines 72 and 73); no lock is
  taken, so the interpreter can switch between the threads after each of them.
  \<open>run_stmts\<close> runs a schedule of the four statements: the reader thread stores the value
  \<open>cm\<close> for the id \<open>wsid\<close> at time \<open>t\<close>, and \<open>read_distance\<close> loads the entry of the
  id \<open>rsid\<close> into its locals \<open>val\<close> and \<open>last\<close>. The schedules of one store and one
  read are the interleavings of \<open>writer_stmts\<close> with \<open>reader_stmts\<close>.
\<close>

datatype stmt = Store_dist | Store_time | Load_val | Load_last

record threads =
  shared :: LaserArray
  r_val :: "pyfloat option"
  r_last :: "real option"

definition exec_stmt :: "string \<Rightarrow> pyfloat \<Rightarrow> real \<Rightarrow> string \<Rightarrow> stmt \<Rightarrow> threads \<Rightarrow> threads" where
  "exec_stmt wsid cm t rsid st c =
     (case st of
        Store_dist \<Rightarrow>
          c\<lparr>shared := (shared c)\<lparr>dist_mm := (dist_mm (shared c))(wsid \<mapsto> Some (mul10 cm))\<rparr>\<rparr>
      | Store_time \<Rightarrow>
          c\<lparr>shared := (shared c)\<lparr>last_update := (last_update (shared c))(wsid \<mapsto> Some t)\<rparr>\<rparr>
      | Load_val \<Rightarrow> c\<lparr>r_val := dict_get (dist_mm (shared c)) rsid\<rparr>
      | Load_last \<Rightarrow> c\<lparr>r_last := dict_get (last_update (shared c)) rsid\<rparr>)"

definition run_stmts :: "string \<Rightarrow> pyfloat \<Rightarrow> real \<Rightarrow> string \<Rightarrow> stmt list \<Rightarrow> threads \<Rightarrow> threads" where
  "run_stmts wsid cm t rsid sched c = fold (exec_stmt wsid cm t rsid) sched c"

definition writer_stmts :: "stmt list" where
  "writer_stmts = [Store_dist, Store_time]"

definition reader_stmts :: "stmt list" where
  "reader_stmts = [Load_val, Load_last]"

definition threads_init :: "LaserArray \<Rightarrow> threads" where
  "threads_init self = \<lparr> shared = self, r_val = None, r_last = None \<rparr>"

text \<open>
  The dicts after the frame \<open>"1,10"\<close> at time 0: sensor 1 reads 100 mm.
\<close>

definition feed_old :: LaserArray where
  "feed_old = reader_step float_text 0 (Line ''1,10'') LaserArray_init"

section \<open>Game state and logic (main.py)\<close>

text \<open>
  The module globals that the game logic reads and writes. The three per-sensor lists
  are parallel lists of length three. \<open>TOLERANCE\<close>, \<open>HOLD_TIME\<close> and \<open>DIFFICULTY\<close>
  are bound by \<open>apply_chart_values\<close>; the model covers the program once they are
  bound. Drawing, fonts and images are not part of the state: nothing the game logic
  reads depends on them. No statement of the program binds the name \<open>confetti\<close>, so
  every read of it raises \<open>NameError\<close>; the first is in the call of \<open>reset_game\<close> on
  line 113, when the module is loaded. The functions are modelled on the globals they
  are called with.
\<close>

record game =
  stage :: int
  targets :: "real list"
  unlocked :: "bool list"
  lock_start :: "real option list"
  locked_dist :: "real option list"
  timer_start :: "real option"
  timer_end :: "real option"
  elapsed_time :: real
  score :: int
  final_beat :: bool
  smooth_mm :: "real list"
  sensors_enabled :: "bool list"
  max_mm :: real
  TOLERANCE :: real
  HOLD_TIME :: real
  DIFFICULTY :: real
  PX_PER_MM :: real

definition max_stage :: int where
  "max_stage = 3"

definition alpha :: real where
  "alpha = 10"

text \<open>\<open>USER_ANGLES\<close> and \<open>dirs\<close> have three entries: the loops run over 0, 1, 2.\<close>

definition sensor_ids :: "nat list" where
  "sensor_ids = [0, 1, 2]"

definition wf_game :: "game \<Rightarrow> bool" where
  "wf_game g \<longleftrightarrow> length (targets g) = 3 \<and> length (unlocked g) = 3 \<and> length (lock_start g) = 3
          \<and> length (locked_dist g) = 3 \<and> length (smooth_mm g) = 3
          \<and> length (sensors_enabled g) = 3"

text \<open>
  \<open>random.uniform(a, b)\<close> is \<open>a + (b - a) * random()\<close>; \<open>u\<close> is the value of
  \<open>random()\<close>, a float in the unit interval.
\<close>

definition uniform :: "real \<Rightarrow> real \<Rightarrow> real \<Rightarrow> real" where
  "uniform a b u = a + (b - a) * u"

text \<open>
  \<open>reset_game(stage_val, start_timer)\<close>: \<open>now\<close> is the value of \<open>time.time()\<close>,
  \<open>us\<close> the three values of \<open>random()\<close>, one per entry of \<open>dirs\<close>. The nine
  assignments of lines 101 to 109 are made, and \<open>confetti.clear()\<close> on line 110 then
  raises \<open>NameError\<close>: the result is the exception, if any, with the globals the call
  leaves.
\<close>

definition reset_game :: "int \<Rightarrow> bool \<Rightarrow> real \<Rightarrow> real list \<Rightarrow> game \<Rightarrow> py_error option \<times> game" where
  "reset_game stage_val start_timer now us g =
     (Some NameError,
      g\<lparr> stage := stage_val,
         targets := map (\<lambda>i. uniform 0 (max_mm g) (us ! i)) sensor_ids,
         unlocked := replicate 3 False,
         lock_start := replicate 3 None,
         locked_dist := replicate 3 None,
         timer_start := (if start_timer then Some now else None),
         elapsed_time := 0,
         score := 0,
         final_beat := False \<rparr>)"

text \<open>
  \<open>apply_chart_values()\<close>: the four assignments happen one after the other inside the
  \<open>try\<close>; a field that is missing or does not parse, and a division by a zero
  \<open>max_mm\<close>, leave the \<open>try\<close> through \<open>except: pass\<close> with the assignments made so
  far, and so does the \<open>NameError\<close> of \<open>reset_game\<close>, with the globals that call
  leaves. \<open>vals\<close> is the list \<open>values\<close> of the chart fields, \<open>dist_range_px\<close> the
  constant of that name.
\<close>

definition chart_field :: "(string \<Rightarrow> real option) \<Rightarrow> string list \<Rightarrow> nat \<Rightarrow> real option" where
  "chart_field pf vals i = (if i < length vals then pf (vals ! i) else None)"

definition apply_chart_values ::
  "(string \<Rightarrow> real option) \<Rightarrow> real \<Rightarrow> string list \<Rightarrow> real \<Rightarrow> real list \<Rightarrow> game \<Rightarrow> game" where
  "apply_chart_values pf dist_range_px vals now us g =
     (case chart_field pf vals 0 of
        None \<Rightarrow> g
      | Some a \<Rightarrow>
          (let g1 = g\<lparr>max_mm := a\<rparr> in
           case chart_field pf vals 1 of
             None \<Rightarrow> g1
           | Some b \<Rightarrow>
               (let g2 = g1\<lparr>TOLERANCE := b\<rparr> in
                case chart_field pf vals 2 of
                  None \<Rightarrow> g2
                | Some c \<Rightarrow>
                    (let g3 = g2\<lparr>HOLD_TIME := c\<rparr> in
                     case chart_field pf vals 3 of
                       None \<Rightarrow> g3
                     | Some d \<Rightarrow>
                         (let g4 = g3\<lparr>DIFFICULTY := d\<rparr> in
                          if max_mm g4 = 0 then g4
                          else snd (reset_game 1 False now us
                                      (g4\<lparr>PX_PER_MM := dist_range_px / max_mm g4\<rparr>)))))))"

text \<open>
  The body of the \<open>for\<close> loop of \<open>draw_game(dt)\<close> for sensor \<open>i\<close>, on the pair of
  the local \<open>all_unlocked\<close> and the globals. \<open>rd i\<close> is what
  \<open>lasers.read_distance(i)\<close> returns in this frame (a number or \<open>None\<close>) and \<open>clk i\<close> the value of
  \<open>time.time()\<close> in the iteration (one call is made, on line 179 or on line 180).
\<close>

definition sensor_body ::
  "(nat \<Rightarrow> real option) \<Rightarrow> (nat \<Rightarrow> real) \<Rightarrow> real \<Rightarrow> nat \<Rightarrow> bool \<times> game \<Rightarrow> bool \<times> game" where
  "sensor_body rd clk dt i = (\<lambda>(all_unlocked, g).
     if \<not> sensors_enabled g ! i then (False, g)
     else case rd i of
       None \<Rightarrow> (False, g)
     | Some raw \<Rightarrow>
         (let raw_mm = min (max raw 0) (max_mm g);
              g1 = g\<lparr>smooth_mm := (smooth_mm g)
                      [i := smooth_mm g ! i + (raw_mm - smooth_mm g ! i) * min 1 (alpha * dt)]\<rparr>;
              g2 = (if \<not> unlocked g1 ! i then
                      (if \<bar>raw_mm - targets g1 ! i\<bar> \<le> TOLERANCE g1 then
                         (case lock_start g1 ! i of
                            None \<Rightarrow> g1\<lparr>lock_start := (lock_start g1)[i := Some (clk i)]\<rparr>
                          | Some t0 \<Rightarrow>
                              if clk i - t0 \<ge> HOLD_TIME g1
                              then g1\<lparr>unlocked := (unlocked g1)[i := True]\<rparr> else g1)
                       else g1\<lparr>lock_start := (lock_start g1)[i := None]\<rparr>)
                    else g1);
              all_unlocked' = (if \<not> unlocked g2 ! i then False else all_unlocked);
              g3 = (if unlocked g2 ! i \<and> locked_dist g2 ! i = None
                    then g2\<lparr>locked_dist := (locked_dist g2)[i := Some raw_mm]\<rparr> else g2)
          in (all_unlocked', g3)))"

text \<open>\<open>draw_game(dt)\<close>: the returned \<open>all_unlocked\<close> and the globals after the frame.\<close>

definition draw_game ::
  "(nat \<Rightarrow> real option) \<Rightarrow> (nat \<Rightarrow> real) \<Rightarrow> real \<Rightarrow> game \<Rightarrow> bool \<times> game" where
  "draw_game rd clk dt g = fold (sensor_body rd clk dt) sensor_ids (True, g)"

text \<open>
  Lines 216 to 224 of the main loop, after \<open>done = draw_game(dt)\<close>: the exception that
  leaves the \<open>try\<close> of the loop, if any, with the globals at that point (the handler of
  the loop then prints it and ends the program). \<open>int(x)\<close> truncates towards zero; the
  division raises when \<open>elapsed_time + 0.01\<close> is zero.
\<close>

definition py_int :: "real \<Rightarrow> int" where
  "py_int x = (if x \<ge> 0 then \<lfloor>x\<rfloor> else \<lceil>x\<rceil>)"

definition stage_progress :: "real \<Rightarrow> real list \<Rightarrow> bool \<Rightarrow> game \<Rightarrow> py_error option \<times> game" where
  "stage_progress now us done g =
     (if \<not> final_beat g \<and> done then
        (if stage g < max_stage
         then (let g1 = g\<lparr>stage := stage g + 1\<rparr>
               in reset_game (stage g1) False now us g1)
         else (let g1 = g\<lparr>final_beat := True, timer_end := Some now\<rparr>;
                   g2 = g1\<lparr>elapsed_time :=
                            (case timer_start g1 of
                               None \<Rightarrow> 0
                             | Some t \<Rightarrow> if t \<noteq> 0 then now - t else 0)\<rparr>
               in if elapsed_time g2 + 0.01 = 0 then (Some ZeroDivisionError, g2)
                  else (None, g2\<lparr>score := py_int ((DIFFICULTY g2 * 1000) / (elapsed_time g2 + 0.01))\<rparr>)))
      else (None, g))"

text \<open>
  One frame of the main loop in game mode: \<open>draw_game\<close>, then the stage progression.
\<close>

definition game_frame ::
  "(nat \<Rightarrow> real option) \<Rightarrow> (nat \<Rightarrow> real) \<Rightarrow> real \<Rightarrow> real \<Rightarrow> real list \<Rightarrow> game \<Rightarrow> py_error option \<times> game" where
  "game_frame rd clk dt now us g =
     (case draw_game rd clk dt g of (done, g') \<Rightarrow> stage_progress now us done g')"

subsection \<open>Runs of frames within one round\<close>

text \<open>
  A frame of the main loop in game mode, as \<open>draw_game\<close> sees it: which sensors are
  enabled (the keys 1, 2, 3 toggle the flags between frames), what \<open>read_distance\<close>
  returns for each sensor, the clock in each iteration, and \<open>dt\<close>.
\<close>

record frame =
  f_enabled :: "nat \<Rightarrow> bool"
  f_rd :: "nat \<Rightarrow> real option"
  f_clk :: "nat \<Rightarrow> real"
  f_dt :: real

definition frame_step :: "frame \<Rightarrow> game \<Rightarrow> game" where
  "frame_step f g =
     snd (draw_game (f_rd f) (f_clk f) (f_dt f) (g\<lparr>sensors_enabled := map (f_enabled f) sensor_ids\<rparr>))"

text \<open>The frames of a round in which no stage advance and no reset happens.\<close>

fun play :: "frame list \<Rightarrow> game \<Rightarrow> game" where
  "play [] g = g"
| "play (f # fs) g = play fs (frame_step f g)"

text \<open>
  The reading the loop body works with for sensor \<open>i\<close> in a frame: the clamped
  \<open>raw_mm\<close>, or none when the sensor is disabled or \<open>read_distance\<close> returns
  \<open>None\<close> (the two \<open>continue\<close> branches).
\<close>

definition reading :: "game \<Rightarrow> frame \<Rightarrow> nat \<Rightarrow> real option" where
  "reading g f i =
     (if f_enabled f i then map_option (\<lambda>raw. min (max raw 0) (max_mm g)) (f_rd f i) else None)"

definition in_tolerance :: "game \<Rightarrow> nat \<Rightarrow> real \<Rightarrow> bool" where
  "in_tolerance g i r \<longleftrightarrow> \<bar>r - targets g ! i\<bar> \<le> TOLERANCE g"

text \<open>The entries of sensor \<open>i\<close> in the per-sensor lists.\<close>

definition sensor_cells :: "game \<Rightarrow> nat \<Rightarrow> bool \<times> real option \<times> real option \<times> real" where
  "sensor_cells g i = (unlocked g ! i, lock_start g ! i, locked_dist g ! i, smooth_mm g ! i)"

text \<open>
  What the loop body does to the entries of one sensor, as a function of those entries
  and of what the body reads for that sensor: the enabled flag, the value read, the
  clock, \<open>dt\<close>, \<open>max_mm\<close>, the target, \<open>TOLERANCE\<close> and \<open>HOLD_TIME\<close>.
  \<open>sensor_body\<close> is proved to act on the entries of its sensor in this way, and to
  leave the entries of the other sensors alone.
\<close>

definition cell_step ::
  "bool \<Rightarrow> real option \<Rightarrow> real \<Rightarrow> real \<Rightarrow> real \<Rightarrow> real \<Rightarrow> real \<Rightarrow> real
     \<Rightarrow> bool \<times> real option \<times> real option \<times> real \<Rightarrow> bool \<times> real option \<times> real option \<times> real" where
  "cell_step en r now dt mx tgt tol hold = (\<lambda>(u, ls, ld, sm).
     if \<not> en then (u, ls, ld, sm)
     else case r of
       None \<Rightarrow> (u, ls, ld, sm)
     | Some raw \<Rightarrow>
         (let raw_mm = min (max raw 0) mx;
              sm' = sm + (raw_mm - sm) * min 1 (alpha * dt);
              ls' = (if \<not> u then
                       (if \<bar>raw_mm - tgt\<bar> \<le> tol
                        then (case ls of None \<Rightarrow> Some now | Some t0 \<Rightarrow> ls)
                        else None)
                     else ls);
              u' = (u \<or> (\<bar>raw_mm - tgt\<bar> \<le> tol
                          \<and> (case ls of None \<Rightarrow> False | Some t0 \<Rightarrow> now - t0 \<ge> hold)));
              ld' = (if u' \<and> ld = None then Some raw_mm else ld)
          in (u', ls', ld', sm')))"

text \<open>A sensor is locked if and only if its frozen distance is set.\<close>

definition lock_consistent :: "game \<Rightarrow> bool" where
  "lock_consistent g \<longleftrightarrow> list_all (\<lambda>i. unlocked g ! i = (locked_dist g ! i \<noteq> None)) sensor_ids"

text \<open>
  The globals that the assignments of module initialisation and of
  \<open>apply_chart_values\<close> on the default chart fields make, with
  \<open>dist_range_px = 520\<close> and the draws 0.5, 0.25, 0.75.
\<close>

definition game0 :: game where
  "game0 =
     \<lparr> stage = 1, targets = [600, 300, 900], unlocked = [False, False, False],
       lock_start = [None, None, None], locked_dist = [None, None, None],
       timer_start = None, timer_end = None, elapsed_time = 0, score = 0,
       final_beat = False, smooth_mm = [0, 0, 0], sensors_enabled = [True, True, True],
       max_mm = 1200, TOLERANCE = 5, HOLD_TIME = 3, DIFFICULTY = 10, PX_PER_MM = 520 / 1200 \<rparr>"

text \<open>
  A state in the middle of the first stage: the timer runs since 10, sensor 0 is locked,
  sensor 1 is inside its tolerance since 14.
\<close>

definition game_mid :: game where
  "game_mid =
     game0\<lparr> unlocked := [True, False, False], lock_start := [Some 12, Some 14, None],
            locked_dist := [Some 601, None, None], timer_start := Some 10,
            smooth_mm := [598, 297, 40] \<rparr>"

text \<open>
  A frame at time 20 in which every sensor is enabled and reads 600, 300 and 900,
  one sixtieth of a second after the frame before.
\<close>

definition frame_on_target :: frame where
  "frame_on_target =
     \<lparr> f_enabled = (\<lambda>i. True),
       f_rd = (\<lambda>i. if i = 0 then Some 600 else if i = 1 then Some 300 else Some 900),
       f_clk = (\<lambda>i. 20), f_dt = 1 / 60 \<rparr>"

text \<open>All three sensors locked in the first stage, and the same with sensor 0 switched off.\<close>

definition game_locked :: game where
  "game_locked =
     game_mid\<lparr> unlocked := [True, True, True], lock_start := [Some 12, Some 14, Some 15],
               locked_dist := [Some 601, Some 299, Some 900] \<rparr>"

definition game_off :: game where
  "game_off = game_locked\<lparr> sensors_enabled := [False, True, True] \<rparr>"

text \<open>
  \<open>on_target\<close>: the frame gives the loop body a reading of sensor \<open>i\<close> inside the
  tolerance. \<open>keeps_hold\<close>: the frame gives the loop body no reading of sensor \<open>i\<close>
  outside the tolerance, that is, the reading is inside the tolerance or the body skips
  the sensor (it is disabled, or \<open>read_distance\<close> returns \<open>None\<close>) whatever the
  sensor measures. \<open>feed_on_target\<close>: what the feed holds for sensor \<open>i\<close> in the frame
  is inside the tolerance, whether the sensor is enabled or not.
\<close>

definition on_target :: "game \<Rightarrow> nat \<Rightarrow> frame \<Rightarrow> bool" where
  "on_target g i f = (case reading g f i of None \<Rightarrow> False | Some r \<Rightarrow> in_tolerance g i r)"

definition keeps_hold :: "game \<Rightarrow> nat \<Rightarrow> frame \<Rightarrow> bool" where
  "keeps_hold g i f = (case reading g f i of None \<Rightarrow> True | Some r \<Rightarrow> in_tolerance g i r)"

definition feed_on_target :: "game \<Rightarrow> nat \<Rightarrow> frame \<Rightarrow> bool" where
  "feed_on_target g i f =
     (case f_rd f i of
        None \<Rightarrow> False
      | Some raw \<Rightarrow> in_tolerance g i (min (max raw 0) (max_mm g)))"

text \<open>The frame \<open>frame_on_target\<close> at another time.\<close>

definition frame_at :: "real \<Rightarrow> frame" where
  "frame_at t = frame_on_target\<lparr> f_clk := (\<lambda>i. t) \<rparr>"

text \<open>
  The globals that \<open>reset_game\<close> leaves when called at time 19 from \<open>game_mid\<close>, with
  the draws 0.5, 0.25, 0.75.
\<close>

definition round1 :: game where
  "round1 = snd (reset_game 1 True 19 [0.5, 0.25, 0.75] game_mid)"

text \<open>
  A frame at time \<open>t\<close> in which sensor 0 is switched off while the feed holds 0 mm
  for it, 600 mm from its target in \<open>round1\<close>.
\<close>

definition frame_away :: "real \<Rightarrow> frame" where
  "frame_away t =
     \<lparr> f_enabled = (\<lambda>i. i \<noteq> 0), f_rd = (\<lambda>i. Some 0), f_clk = (\<lambda>i. t), f_dt = 1 / 60 \<rparr>"

section \<open>Properties of the sensor feed\<close>

subsection \<open>Strings, dicts and single reads\<close>

lemma split_comma_app: "CHR '','' \<notin> set sid \<Longrightarrow> split_comma (sid @ CHR '','' # v) = (sid, v)"
  by (induction sid) (auto simp: split_comma_def)

lemma digits_nonempty: "digits n \<noteq> []"
  by (subst digits.simps) simp

lemma digits_small: "n < 10 \<Longrightarrow> digits n = [digit_char n]"
  by (subst digits.simps) simp

lemma digits_large: "\<not> n < 10 \<Longrightarrow> digits n = digits (n div 10) @ [digit_char (n mod 10)]"
  by (subst digits.simps) simp

lemma digits_single: "digits n = [c] \<Longrightarrow> n < 10 \<and> c = digit_char n"
proof (cases "n < 10")
  case True
  assume "digits n = [c]"
  with True show ?thesis by (simp add: digits_small)
next
  case False
  assume a: "digits n = [c]"
  with digits_large [OF False] have "digits (n div 10) = []" by simp
  with digits_nonempty show ?thesis by blast
qed

lemma digits_length: "0 < k \<Longrightarrow> length (digits n) \<le> k \<longleftrightarrow> n < 10 ^ k"
proof (induction n arbitrary: k rule: digits.induct)
  case (1 n)
  show ?case
  proof (cases "n < 10")
    case True
    have "(10::nat) ^ 1 \<le> 10 ^ k" using "1.prems" by (intro power_increasing) simp_all
    with True have "n < 10 ^ k" by simp
    moreover have "length (digits n) = 1" using True by (simp add: digits_small)
    ultimately show ?thesis using "1.prems" by simp
  next
    case False
    have len: "length (digits n) = Suc (length (digits (n div 10)))"
      by (simp only: digits_large [OF False] length_append list.size)
    show ?thesis
    proof (cases k)
      case 0
      with "1.prems" show ?thesis by simp
    next
      case (Suc j)
      show ?thesis
      proof (cases "j = 0")
        case True
        have "0 < length (digits (n div 10))" using digits_nonempty [of "n div 10"] by simp
        with False True Suc len show ?thesis by simp
      next
        case j: False
        then have "0 < j" by simp
        from "1.IH" [OF False this] have "length (digits (n div 10)) \<le> j \<longleftrightarrow> n div 10 < 10 ^ j" .
        moreover have "n div 10 < 10 ^ j \<longleftrightarrow> n < 10 ^ j * 10"
          by (rule div_less_iff_less_mult) simp
        ultimately show ?thesis by (simp only: len Suc Suc_le_mono power_Suc mult.commute)
      qed
    qed
  qed
qed

lemma max_str_digits_pos: "0 < max_str_digits"
  by (simp add: max_str_digits_def)

lemma str_int_raises: "str_int i = Inl ValueError \<longleftrightarrow> 10 ^ max_str_digits \<le> \<bar>i\<bar>"
proof -
  have "length (digits (nat \<bar>i\<bar>)) \<le> max_str_digits \<longleftrightarrow> nat \<bar>i\<bar> < 10 ^ max_str_digits"
    using max_str_digits_pos by (rule digits_length)
  also have "\<dots> \<longleftrightarrow> \<bar>i\<bar> < 10 ^ max_str_digits"
    by (simp add: nat_less_iff)
  finally show ?thesis by (auto simp: str_int_def Let_def)
qed

lemma str_int_returns: "\<bar>i\<bar> < 10 ^ max_str_digits \<Longrightarrow> \<exists>s. str_int i = Inr s"
  using str_int_raises [of i] by (cases "str_int i") (auto simp: str_int_def Let_def split: if_splits)

lemma str_int_digit: "0 \<le> i \<Longrightarrow> i < 10 \<Longrightarrow> str_int i = Inr [digit_char (nat i)]"
  using max_str_digits_pos by (simp add: str_int_def digits_small Suc_le_eq not_less)

lemma str_int_small:
  "str_int 1 = Inr ''1''" "str_int 2 = Inr ''2''" "str_int 3 = Inr ''3''" "str_int 7 = Inr ''7''"
  by (simp_all add: str_int_digit digit_char_def)

lemma digit_char_cases:
  "n < 10 \<Longrightarrow> digit_char n \<in> {CHR ''1'', CHR ''2'', CHR ''3''} \<Longrightarrow> n \<in> {1, 2, 3}"
  by (auto simp: digit_char_def eval_nat_numeral less_Suc_eq)

lemma str_int_known:
  assumes "str_int k = Inr s" "s \<in> {''1'', ''2'', ''3''}" shows "k \<in> {1, 2, 3}"
proof (cases "k < 0")
  case True
  with assms show ?thesis by (auto simp: str_int_def Let_def split: if_splits)
next
  case False
  with assms have "digits (nat k) \<in> {''1'', ''2'', ''3''}"
    by (auto simp: str_int_def Let_def split: if_splits)
  then obtain c where c: "digits (nat k) = [c]" "c \<in> {CHR ''1'', CHR ''2'', CHR ''3''}" by auto
  from digits_single [OF c(1)] c(2) have "nat k < 10" "digit_char (nat k) \<in> {CHR ''1'', CHR ''2'', CHR ''3''}"
    by simp_all
  from digit_char_cases [OF this] have "nat k \<in> {1, 2, 3}" .
  with False show ?thesis by auto
qed


lemma dict_get_upd: "dict_get (d(k \<mapsto> Some v)) k' = (if k' = k then Some v else dict_get d k')"
  by (simp add: dict_get_def)

lemma dict_get_init: "dict_get (dist_mm LaserArray_init) k = None" "dict_get (last_update LaserArray_init) k = None"
  by (simp_all add: dict_get_def LaserArray_init_def)

lemma read_result_None: "read_result None l timeout now = None"
  by (simp add: read_result_def)

lemma read_result_Some:
  "read_result (Some v) (Some t) timeout now = (if now - t > timeout then None else Some v)"
  by (simp add: read_result_def)

lemma read_distance_init:
  "read_distance LaserArray_init idx timeout now =
     (case str_int (idx + 1) of Inl e \<Rightarrow> Inl e | Inr sid \<Rightarrow> Inr None)"
  by (simp add: read_distance_def dict_get_init read_result_None split: sum.splits)

lemma reader_step_frame:
  "reader_step pf t inp self =
     (case frame_of pf inp of
        None \<Rightarrow> self
      | Some (sid, cm) \<Rightarrow> self\<lparr> dist_mm := (dist_mm self)(sid \<mapsto> Some (mul10 cm)),
                                 last_update := (last_update self)(sid \<mapsto> Some t) \<rparr>)"
  by (auto simp: reader_step_def frame_of_def Let_def split: serial_read.splits option.splits prod.splits)

lemma read_distance_step:
  "read_distance (reader_step pf t inp self) idx timeout now =
     (case frame_of pf inp of
        None \<Rightarrow> read_distance self idx timeout now
      | Some (sid, cm) \<Rightarrow>
          if str_int (idx + 1) = Inr sid
          then Inr (if now - t > timeout then None else Some (mul10 cm))
          else read_distance self idx timeout now)"
  by (auto simp: reader_step_frame read_distance_def dict_get_upd read_result_Some Let_def
           split: option.splits prod.splits sum.splits)

lemma read_distance_run:
  "read_distance (reader_run pf frames self) idx timeout now =
     (case str_int (idx + 1) of
        Inl e \<Rightarrow> Inl e
      | Inr sid \<Rightarrow>
          (case latest pf sid frames of
             None \<Rightarrow> read_distance self idx timeout now
           | Some (t, cm) \<Rightarrow> Inr (if now - t > timeout then None else Some (mul10 cm))))"
proof (induction frames arbitrary: self)
  case Nil
  show ?case by (simp add: read_distance_def split: sum.splits)
next
  case (Cons x frames)
  obtain t inp where x: "x = (t, inp)" by (cases x)
  show ?case
    by (auto simp: x Cons.IH read_distance_step split: option.splits prod.splits sum.splits)
qed

lemma frame_of_valid:
  assumes "idx \<in> {0, 1, 2}" "str_int (idx + 1) = Inr sid"
    "strip (decode_ascii raw) = sid @ CHR '','' # v" "pf v = Some cm"
  shows "frame_of pf (Line raw) = Some (sid, cm)"
proof -
  from assms(1,2) have "CHR '','' \<notin> set sid" by (auto simp: str_int_small)
  then have "split_comma (sid @ CHR '','' # v) = (sid, v)"
    by (rule split_comma_app)
  with assms(3,4) show ?thesis by (simp add: frame_of_def)
qed

lemma latest_unknown:
  "known_ids pf frames \<Longrightarrow> sid \<notin> {''1'', ''2'', ''3''} \<Longrightarrow> latest pf sid frames = None"
  by (induction frames) (auto simp: known_ids_def split: option.splits)

text \<open>Evaluated reads and frames used below.\<close>

lemma ex_line: "strip (decode_ascii (''2,12.5\<newline>'')) = ''2,12.5''"
  by (simp add: strip_def decode_ascii_def isspace_def)

lemma ex_float: "float_text ''12.5'' = Some (Fin 12.5)"
  by (simp add: float_text_def float_dec_def digit_val_def upt_rec)

lemma ex_frames:
  "frame_of float_text (Line ''7,5'') = Some (''7'', Fin 5)"
  "frame_of float_text (Line ''1,10'') = Some (''1'', Fin 10)"
  "frame_of float_text (Line ''1,20'') = Some (''1'', Fin 20)"
  "frame_of float_text (Line ''1,nan'') = Some (''1'', NaN)"
  by (simp_all add: frame_of_def strip_def decode_ascii_def isspace_def split_comma_def
        float_text_def float_dec_def digit_val_def upt_rec)



lemma feed_old_simps:
  "dist_mm feed_old ''1'' = Some (Some (Fin 100))" "last_update feed_old ''1'' = Some (Some 0)"
  "read_distance feed_old 0 timeout now = Inr (if now > timeout then None else Some (Fin 100))"
proof -
  show "dist_mm feed_old ''1'' = Some (Some (Fin 100))" "last_update feed_old ''1'' = Some (Some 0)"
    by (simp_all add: feed_old_def reader_step_frame ex_frames)
  show "read_distance feed_old 0 timeout now = Inr (if now > timeout then None else Some (Fin 100))"
    unfolding feed_old_def by (simp add: read_distance_step ex_frames str_int_small)
qed

subsection \<open>Valid frames and staleness\<close>

text \<open>
  Claim C5. A valid frame \<open>"<id>,<v>"\<close> with id 1, 2 or 3 and numeric \<open>v\<close> stores
  \<open>v * 10\<close> for its sensor, and a read of that sensor at time \<open>now\<close> returns the
  stored value unless more than \<open>timeout\<close> has passed since the frame, when it returns
  \<open>None\<close>. Over a whole run of the reader from the initial dicts, a read returns
  \<open>None\<close> when no valid frame with the sensor's id has been seen or when the last one
  is older than \<open>timeout\<close>, and ten times the value of the last one otherwise.
\<close>

theorem read_distance_feed:
  "(idx \<in> {0, 1, 2} \<and> str_int (idx + 1) = Inr sid
      \<and> strip (decode_ascii raw) = sid @ CHR '','' # v \<and> pf v = Some cm
      \<longrightarrow> dict_get (dist_mm (reader_step pf t (Line raw) self)) sid = Some (mul10 cm)
        \<and> read_distance (reader_step pf t (Line raw) self) idx timeout now
            = Inr (if now - t > timeout then None else Some (mul10 cm)))
   \<and> mul10 (Fin c) = Fin (c * 10)
   \<and> read_distance (reader_run pf frames LaserArray_init) idx timeout now
       = (case str_int (idx + 1) of
            Inl e \<Rightarrow> Inl e
          | Inr sid' \<Rightarrow>
              Inr (case latest pf sid' frames of
                     None \<Rightarrow> None
                   | Some (t', cm') \<Rightarrow> if now - t' > timeout then None else Some (mul10 cm')))"
proof (intro conjI impI)
  assume h: "idx \<in> {0, 1, 2} \<and> str_int (idx + 1) = Inr sid
      \<and> strip (decode_ascii raw) = sid @ CHR '','' # v \<and> pf v = Some cm"
  then have f: "frame_of pf (Line raw) = Some (sid, cm)"
    using frame_of_valid by blast
  show "dict_get (dist_mm (reader_step pf t (Line raw) self)) sid = Some (mul10 cm)"
    by (simp add: reader_step_frame f dict_get_upd)
  show "read_distance (reader_step pf t (Line raw) self) idx timeout now
            = Inr (if now - t > timeout then None else Some (mul10 cm))"
    using h by (simp add: read_distance_step f)
next
  show "mul10 (Fin c) = Fin (c * 10)" by simp
next
  show "read_distance (reader_run pf frames LaserArray_init) idx timeout now
       = (case str_int (idx + 1) of
            Inl e \<Rightarrow> Inl e
          | Inr sid' \<Rightarrow>
              Inr (case latest pf sid' frames of
                     None \<Rightarrow> None
                   | Some (t', cm') \<Rightarrow> if now - t' > timeout then None else Some (mul10 cm')))"
    by (simp add: read_distance_run read_distance_init split: option.splits sum.splits)
qed

theorem read_distance_feed_witness:
  "read_distance (reader_step float_text 10 (Line (''2,12.5\<newline>'')) LaserArray_init) 1 2 10
     = Inr (Some (Fin 125))
   \<and> read_distance (reader_step float_text 10 (Line (''2,12.5\<newline>'')) LaserArray_init) 1 2 12
     = Inr (Some (Fin 125))
   \<and> read_distance (reader_step float_text 10 (Line (''2,12.5\<newline>'')) LaserArray_init) 1 2 12.5
     = Inr None
   \<and> read_distance (reader_run float_text [] LaserArray_init) 1 2 10 = Inr None"
  using read_distance_feed [of 1 "''2''" "''2,12.5\<newline>''" "''12.5''" float_text "Fin 12.5" 10 LaserArray_init 2 10 0 "[]"]
        read_distance_feed [of 1 "''2''" "''2,12.5\<newline>''" "''12.5''" float_text "Fin 12.5" 10 LaserArray_init 2 12 0 "[]"]
        read_distance_feed [of 1 "''2''" "''2,12.5\<newline>''" "''12.5''" float_text "Fin 12.5" 10 LaserArray_init 2 "12.5" 0 "[]"]
  by (simp add: ex_line ex_float str_int_small)

subsection \<open>Malformed frames\<close>




subsection \<open>Indices outside 0, 1, 2\<close>

text \<open>
  Claim C10, as stated, fails: the reader stores a frame under whatever id it carries,
  so after the frame \<open>"7,5"\<close> the read of index 6 returns 50.
\<close>

theorem read_distance_outside_counterexample:
  "read_distance (reader_run float_text [(0, Line ''7,5'')] LaserArray_init) 6 2 1 = Inr (Some (Fin 50))"
  by (simp add: read_distance_step ex_frames str_int_small)

text \<open>
  Claim C10, amended. For every state of the dicts, \<open>read_distance\<close> returns a reading
  or \<open>None\<close> for every index \<open>idx\<close> with \<open>\<bar>idx + 1\<bar> < 10 ^ 4300\<close>, and raises
  \<open>ValueError\<close> (in \<open>str(idx + 1)\<close>) for every other index. For an index outside
  0, 1, 2 that it does not raise on, it returns \<open>None\<close> after every run of the reader
  whose stored frames carry the ids 1, 2, 3 only.
\<close>

theorem read_distance_outside:
  "(\<bar>idx + 1\<bar> < 10 ^ max_str_digits \<longrightarrow> (\<exists>r. read_distance self idx timeout now = Inr r))
   \<and> (10 ^ max_str_digits \<le> \<bar>idx + 1\<bar> \<longrightarrow> read_distance self idx timeout now = Inl ValueError)
   \<and> (known_ids pf frames \<and> idx \<notin> {0, 1, 2} \<and> \<bar>idx + 1\<bar> < 10 ^ max_str_digits
        \<longrightarrow> read_distance (reader_run pf frames LaserArray_init) idx timeout now = Inr None)"
proof (intro conjI impI)
  assume "\<bar>idx + 1\<bar> < 10 ^ max_str_digits"
  from str_int_returns [OF this] obtain s where "str_int (idx + 1) = Inr s" by blast
  then show "\<exists>r. read_distance self idx timeout now = Inr r"
    by (simp add: read_distance_def Let_def)
next
  assume "10 ^ max_str_digits \<le> \<bar>idx + 1\<bar>"
  then have "str_int (idx + 1) = Inl ValueError" by (simp add: str_int_raises)
  then show "read_distance self idx timeout now = Inl ValueError"
    by (simp add: read_distance_def)
next
  assume a: "known_ids pf frames \<and> idx \<notin> {0, 1, 2} \<and> \<bar>idx + 1\<bar> < 10 ^ max_str_digits"
  then obtain s where s: "str_int (idx + 1) = Inr s" using str_int_returns by blast
  from a have "idx + 1 \<notin> {1, 2, 3}" by auto
  with str_int_known [OF s] have "s \<notin> {''1'', ''2'', ''3''}" by blast
  with a have "latest pf s frames = None" by (intro latest_unknown) simp_all
  then show "read_distance (reader_run pf frames LaserArray_init) idx timeout now = Inr None"
    by (simp add: read_distance_run read_distance_init s)
qed

theorem read_distance_outside_witness:
  "known_ids float_text [(0, Line ''1,20'')] \<and> (6::int) \<notin> {0, 1, 2}
   \<and> \<bar>6 + 1 :: int\<bar> < 10 ^ max_str_digits
   \<and> read_distance (reader_run float_text [(0, Line ''1,20'')] LaserArray_init) 6 2 1 = Inr None
   \<and> read_distance LaserArray_init (10 ^ max_str_digits - 1) 2 1 = Inl ValueError"
proof -
  have k: "known_ids float_text [(0, Line ''1,20'')]" by (simp add: known_ids_def ex_frames)
  have n: "(6::int) \<notin> {0, 1, 2}" by simp
  have "(10::int) ^ 1 \<le> 10 ^ max_str_digits"
    using max_str_digits_pos by (intro power_increasing) simp_all
  then have l: "\<bar>6 + 1 :: int\<bar> < 10 ^ max_str_digits" by simp
  have h: "(10::int) ^ max_str_digits \<le> \<bar>(10 ^ max_str_digits - 1) + 1\<bar>" by simp
  from read_distance_outside [of 6 _ _ _ float_text "[(0, Line ''1,20'')]"] k n l
  have "read_distance (reader_run float_text [(0, Line ''1,20'')] LaserArray_init) 6 2 1 = Inr None"
    by blast
  moreover from read_distance_outside [of "10 ^ max_str_digits - 1" LaserArray_init 2 1] h
  have "read_distance LaserArray_init (10 ^ max_str_digits - 1) 2 1 = Inl ValueError"
    by blast
  ultimately show ?thesis using k n l by blast
qed

subsection \<open>A read during a store\<close>

lemma exec_simps:
  "shared (exec_stmt w cm t r Load_val c) = shared c"
  "shared (exec_stmt w cm t r Load_last c) = shared c"
  "r_val (exec_stmt w cm t r Load_val c) = dict_get (dist_mm (shared c)) r"
  "r_last (exec_stmt w cm t r Load_last c) = dict_get (last_update (shared c)) r"
  "r_val (exec_stmt w cm t r Load_last c) = r_val c"
  "r_last (exec_stmt w cm t r Load_val c) = r_last c"
  "r_val (exec_stmt w cm t r Store_dist c) = r_val c"
  "r_val (exec_stmt w cm t r Store_time c) = r_val c"
  "r_last (exec_stmt w cm t r Store_dist c) = r_last c"
  "r_last (exec_stmt w cm t r Store_time c) = r_last c"
  "dist_mm (shared (exec_stmt w cm t r Store_dist c)) = (dist_mm (shared c))(w \<mapsto> Some (mul10 cm))"
  "last_update (shared (exec_stmt w cm t r Store_dist c)) = last_update (shared c)"
  "dist_mm (shared (exec_stmt w cm t r Store_time c)) = dist_mm (shared c)"
  "last_update (shared (exec_stmt w cm t r Store_time c)) = (last_update (shared c))(w \<mapsto> Some t)"
  by (simp_all add: exec_stmt_def)

text \<open>
  Run alone, the two stores are \<open>reader_step\<close> on a frame, and the two loads with
  \<open>read_result\<close> are \<open>read_distance\<close>.
\<close>

lemma reader_step_stmts:
  "frame_of pf inp = Some (sid, cm) \<Longrightarrow>
     shared (run_stmts sid cm t r writer_stmts (threads_init self)) = reader_step pf t inp self"
  by (simp add: run_stmts_def writer_stmts_def exec_stmt_def threads_init_def reader_step_frame)

lemma read_distance_stmts:
  "str_int (idx + 1) = Inr sid \<Longrightarrow>
     read_distance self idx timeout now =
       Inr (read_result (r_val (run_stmts w cm t sid reader_stmts (threads_init self)))
              (r_last (run_stmts w cm t sid reader_stmts (threads_init self))) timeout now)"
  by (simp add: read_distance_def run_stmts_def reader_stmts_def exec_simps threads_init_def)

text \<open>
  With the switch of threads before or after both stores, the two loads see the entry
  as it was before the frame, or as \<open>reader_step\<close> leaves it.
\<close>

lemma sequential_reads:
  "r_val (run_stmts sid cm t sid (reader_stmts @ writer_stmts) (threads_init self))
     = dict_get (dist_mm self) sid"
  "r_last (run_stmts sid cm t sid (reader_stmts @ writer_stmts) (threads_init self))
     = dict_get (last_update self) sid"
  "r_val (run_stmts sid cm t sid (writer_stmts @ reader_stmts) (threads_init self)) = Some (mul10 cm)"
  "r_last (run_stmts sid cm t sid (writer_stmts @ reader_stmts) (threads_init self)) = Some t"
  by (simp_all add: run_stmts_def reader_stmts_def writer_stmts_def exec_simps threads_init_def
        dict_get_upd)

text \<open>
  Claim C9. Sensor 1 holds 100 mm from time 0, so at time 5 it is stale: a read of index
  0 with the timeout 2 returns \<open>None\<close> before the frame \<open>"1,20"\<close> of time 5 is stored
  and 200 mm after. In the schedule in which \<open>read_distance\<close> loads the distance, the
  reader thread then makes its two stores, and \<open>read_distance\<close> then loads the
  timestamp, the read pairs the old distance with the new timestamp and returns the
  stale 100 mm as a fresh reading.
\<close>

theorem torn_read:
  "[Load_val, Store_dist, Store_time, Load_last] \<in> shuffles writer_stmts reader_stmts
   \<and> r_val (run_stmts ''1'' (Fin 20) 5 ''1'' [Load_val, Store_dist, Store_time, Load_last]
             (threads_init feed_old)) = Some (Fin 100)
   \<and> r_last (run_stmts ''1'' (Fin 20) 5 ''1'' [Load_val, Store_dist, Store_time, Load_last]
             (threads_init feed_old)) = Some 5
   \<and> read_result (Some (Fin 100)) (Some 5) 2 5 = Some (Fin 100)
   \<and> shared (run_stmts ''1'' (Fin 20) 5 ''1'' [Load_val, Store_dist, Store_time, Load_last]
             (threads_init feed_old)) = reader_step float_text 5 (Line ''1,20'') feed_old
   \<and> read_distance feed_old 0 2 5 = Inr None
   \<and> read_distance (reader_step float_text 5 (Line ''1,20'') feed_old) 0 2 5 = Inr (Some (Fin 200))"
proof -
  let ?c = "run_stmts ''1'' (Fin 20) 5 ''1'' [Load_val, Store_dist, Store_time, Load_last]
             (threads_init feed_old)"
  have m: "[Load_val, Store_dist, Store_time, Load_last] \<in> shuffles writer_stmts reader_stmts"
    by (simp add: writer_stmts_def reader_stmts_def)
  have v: "r_val ?c = Some (Fin 100)"
    by (simp add: run_stmts_def exec_simps threads_init_def dict_get_def feed_old_simps)
  have l: "r_last ?c = Some 5"
    by (simp add: run_stmts_def exec_simps threads_init_def dict_get_def)
  have s: "shared ?c = reader_step float_text 5 (Line ''1,20'') feed_old"
    by (simp add: run_stmts_def exec_stmt_def threads_init_def reader_step_frame ex_frames)
  have a: "read_distance (reader_step float_text 5 (Line ''1,20'') feed_old) 0 2 5 = Inr (Some (Fin 200))"
    by (simp add: read_distance_step ex_frames str_int_small)
  from m v l s a show ?thesis
    by (simp add: read_result_Some feed_old_simps)
qed

section \<open>Properties of the game logic\<close>

subsection \<open>Round reset, stage progression and chart values\<close>

lemma all_lt_3: "(\<forall>i<3. P i) \<longleftrightarrow> P 0 \<and> P 1 \<and> P (2::nat)"
  by (auto simp: numeral_3_eq_3 numeral_2_eq_2 less_Suc_eq)

lemma uniform_range:
  assumes "0 \<le> u" "u < 1" "0 < m"
  shows "0 \<le> uniform 0 m u \<and> uniform 0 m u < m"
proof -
  from assms have "m * u < m * 1" by (intro mult_strict_left_mono) simp_all
  with assms show ?thesis by (simp add: uniform_def)
qed

lemma reset_game_simps:
  "unlocked (snd (reset_game sv st now us g)) = [False, False, False]"
  "lock_start (snd (reset_game sv st now us g)) = [None, None, None]"
  "locked_dist (snd (reset_game sv st now us g)) = [None, None, None]"
  "targets (snd (reset_game sv st now us g))
       = [uniform 0 (max_mm g) (us ! 0), uniform 0 (max_mm g) (us ! 1), uniform 0 (max_mm g) (us ! 2)]"
  "elapsed_time (snd (reset_game sv st now us g)) = 0"
  "score (snd (reset_game sv st now us g)) = 0"
  "\<not> final_beat (snd (reset_game sv st now us g))"
  "timer_start (snd (reset_game sv st now us g)) = (if st then Some now else None)"
  "stage (snd (reset_game sv st now us g)) = sv"
  "smooth_mm (snd (reset_game sv st now us g)) = smooth_mm g"
  by (simp_all add: reset_game_def sensor_ids_def numeral_3_eq_3)

lemma reset_game_targets_range:
  assumes "\<forall>i<3. 0 \<le> us ! i \<and> us ! i < 1" "0 < max_mm g"
  shows "\<forall>i<3. 0 \<le> targets (snd (reset_game sv st now us g)) ! i
                \<and> targets (snd (reset_game sv st now us g)) ! i < max_mm g"
  using assms unfolding all_lt_3 by (simp add: reset_game_simps uniform_range)

text \<open>
  Claim C3, amended. The assignments of \<open>reset_game\<close> leave all three sensors
  unlocked, with no lock start and no frozen distance, and with the targets
  \<open>uniform(0, max_mm)\<close> of three new draws (inside \<open>[0, max_mm)\<close> when the draws are
  in the unit interval and \<open>max_mm\<close> is positive); they leave the elapsed time and the
  score at 0 and \<open>final_beat\<close> false, \<open>timer_start\<close> at the current time when
  \<open>start_timer\<close> is true and at \<open>None\<close> otherwise, and the stage at the stage
  given; the smoothing state \<open>smooth_mm\<close> is not assigned and keeps its value.
\<close>

theorem reset_game_fields:
  "unlocked (snd (reset_game sv st now us g)) = [False, False, False]
   \<and> lock_start (snd (reset_game sv st now us g)) = [None, None, None]
   \<and> locked_dist (snd (reset_game sv st now us g)) = [None, None, None]
   \<and> targets (snd (reset_game sv st now us g))
       = [uniform 0 (max_mm g) (us ! 0), uniform 0 (max_mm g) (us ! 1), uniform 0 (max_mm g) (us ! 2)]
   \<and> ((\<forall>i<3. 0 \<le> us ! i \<and> us ! i < 1) \<and> 0 < max_mm g
        \<longrightarrow> (\<forall>i<3. 0 \<le> targets (snd (reset_game sv st now us g)) ! i
                    \<and> targets (snd (reset_game sv st now us g)) ! i < max_mm g))
   \<and> elapsed_time (snd (reset_game sv st now us g)) = 0
   \<and> score (snd (reset_game sv st now us g)) = 0
   \<and> \<not> final_beat (snd (reset_game sv st now us g))
   \<and> timer_start (snd (reset_game sv st now us g)) = (if st then Some now else None)
   \<and> stage (snd (reset_game sv st now us g)) = sv
   \<and> smooth_mm (snd (reset_game sv st now us g)) = smooth_mm g"
  using reset_game_targets_range [of us g sv st now]
  by (simp only: reset_game_simps) simp

lemma reset_game_wf: "wf_game g \<Longrightarrow> wf_game (snd (reset_game sv st now us g))"
  by (simp add: reset_game_def wf_game_def sensor_ids_def)

lemma reset_game_consistent: "lock_consistent (snd (reset_game sv st now us g))"
  by (simp add: reset_game_def lock_consistent_def sensor_ids_def numeral_3_eq_3)

lemma reset_game_raises: "fst (reset_game sv st now us g) = Some NameError"
  by (simp add: reset_game_def)

lemma apply_chart_values_ok:
  assumes "chart_field pf vals 0 = Some a" "chart_field pf vals 1 = Some b"
    "chart_field pf vals 2 = Some c" "chart_field pf vals 3 = Some d" "a \<noteq> 0"
  shows "apply_chart_values pf drp vals now us g =
     snd (reset_game 1 False now us
       (g\<lparr>max_mm := a, TOLERANCE := b, HOLD_TIME := c, DIFFICULTY := d, PX_PER_MM := drp / a\<rparr>))"
  using assms by (simp add: apply_chart_values_def)

text \<open>
  Claim C7. With the chart fields \<open>"1000"\<close>, \<open>""\<close>, \<open>"3.0"\<close>, \<open>"10.0"\<close> the first
  assignment is made and \<open>float("")\<close> then leaves the \<open>try\<close>: \<open>max_mm\<close> changes from
  1200 to 1000 and no new round is created (targets, locks, frozen distances and the
  pixel scale stay as they were).
\<close>

theorem apply_chart_values_partial:
  "apply_chart_values float_dec 520 [''1000'', '''', ''3.0'', ''10.0''] 30 [0.1, 0.2, 0.3] game_mid
     = game_mid\<lparr>max_mm := 1000\<rparr>"
  by (simp add: apply_chart_values_def chart_field_def float_dec_def digit_val_def upt_rec)

lemma apply_chart_values_zero:
  "apply_chart_values float_dec 520 [''0'', ''7'', ''3.0'', ''10.0''] 30 [0.1, 0.2, 0.3] game_mid
     = game_mid\<lparr>max_mm := 0, TOLERANCE := 7\<rparr>"
  by (simp add: apply_chart_values_def chart_field_def float_dec_def digit_val_def upt_rec game_mid_def game0_def)

subsection \<open>The loop body of draw_game\<close>

lemma sb_skip:
  "\<not> sensors_enabled g ! i \<or> rd i = None \<Longrightarrow> sensor_body rd clk dt i (a, g) = (False, g)"
  by (auto simp: sensor_body_def)

lemma sb_frame:
  "sensors_enabled (snd (sensor_body rd clk dt i (a, g))) = sensors_enabled g"
  "targets (snd (sensor_body rd clk dt i (a, g))) = targets g"
  "max_mm (snd (sensor_body rd clk dt i (a, g))) = max_mm g"
  "TOLERANCE (snd (sensor_body rd clk dt i (a, g))) = TOLERANCE g"
  "HOLD_TIME (snd (sensor_body rd clk dt i (a, g))) = HOLD_TIME g"
  "DIFFICULTY (snd (sensor_body rd clk dt i (a, g))) = DIFFICULTY g"
  "stage (snd (sensor_body rd clk dt i (a, g))) = stage g"
  "timer_start (snd (sensor_body rd clk dt i (a, g))) = timer_start g"
  "final_beat (snd (sensor_body rd clk dt i (a, g))) = final_beat g"
  "length (unlocked (snd (sensor_body rd clk dt i (a, g)))) = length (unlocked g)"
  "length (lock_start (snd (sensor_body rd clk dt i (a, g)))) = length (lock_start g)"
  "length (locked_dist (snd (sensor_body rd clk dt i (a, g)))) = length (locked_dist g)"
  "length (smooth_mm (snd (sensor_body rd clk dt i (a, g)))) = length (smooth_mm g)"
  by (simp_all add: sensor_body_def Let_def split: option.split)

lemma sb_wf: "wf_game g \<Longrightarrow> wf_game (snd (sensor_body rd clk dt i (a, g)))"
  by (simp add: wf_game_def sb_frame)

lemma sb_other:
  "j \<noteq> i \<Longrightarrow> sensor_cells (snd (sensor_body rd clk dt i (a, g))) j = sensor_cells g j"
  by (simp add: sensor_body_def Let_def sensor_cells_def split: option.split)


lemma sbp_frame:
  "sensors_enabled (snd (sensor_body rd clk dt i p)) = sensors_enabled (snd p)"
  "targets (snd (sensor_body rd clk dt i p)) = targets (snd p)"
  "max_mm (snd (sensor_body rd clk dt i p)) = max_mm (snd p)"
  "TOLERANCE (snd (sensor_body rd clk dt i p)) = TOLERANCE (snd p)"
  "HOLD_TIME (snd (sensor_body rd clk dt i p)) = HOLD_TIME (snd p)"
  "DIFFICULTY (snd (sensor_body rd clk dt i p)) = DIFFICULTY (snd p)"
  "stage (snd (sensor_body rd clk dt i p)) = stage (snd p)"
  "timer_start (snd (sensor_body rd clk dt i p)) = timer_start (snd p)"
  "final_beat (snd (sensor_body rd clk dt i p)) = final_beat (snd p)"
  by (cases p, simp add: sb_frame)+

lemma sbp_wf: "wf_game (snd p) \<Longrightarrow> wf_game (snd (sensor_body rd clk dt i p))"
  by (cases p) (simp add: sb_wf)

lemma sbp_other:
  "j \<noteq> i \<Longrightarrow> sensor_cells (snd (sensor_body rd clk dt i p)) j = sensor_cells (snd p) j"
  by (cases p) (simp add: sb_other)

lemma sb_self:
  assumes "wf_game g" "i < 3"
  shows "sensor_cells (snd (sensor_body rd clk dt i (a, g))) i =
           cell_step (sensors_enabled g ! i) (rd i) (clk i) dt (max_mm g) (targets g ! i)
             (TOLERANCE g) (HOLD_TIME g) (sensor_cells g i)
       \<and> fst (sensor_body rd clk dt i (a, g)) =
           (a \<and> sensors_enabled g ! i \<and> rd i \<noteq> None
              \<and> unlocked (snd (sensor_body rd clk dt i (a, g))) ! i)"
proof (cases "\<not> sensors_enabled g ! i \<or> rd i = None")
  case True
  then show ?thesis
    by (auto simp: sb_skip cell_step_def sensor_cells_def)
next
  case False
  then obtain raw where en: "sensors_enabled g ! i" and rd: "rd i = Some raw" by auto
  from assms have len: "i < length (unlocked g)" "i < length (lock_start g)"
    "i < length (locked_dist g)" "i < length (smooth_mm g)"
    by (simp_all add: wf_game_def)
  show ?thesis
  proof (cases "unlocked g ! i")
    case True
    with en rd len show ?thesis
      by (simp add: sensor_body_def cell_step_def sensor_cells_def Let_def)
  next
    case u: False
    show ?thesis
    proof (cases "\<bar>min (max raw 0) (max_mm g) - targets g ! i\<bar> \<le> TOLERANCE g")
      case False
      with u en rd len show ?thesis
        by (simp add: sensor_body_def cell_step_def sensor_cells_def Let_def)
    next
      case t: True
      show ?thesis
      proof (cases "lock_start g ! i")
        case None
        with t u en rd len show ?thesis
          by (simp add: sensor_body_def cell_step_def sensor_cells_def Let_def)
      next
        case (Some t0)
        with t u en rd len show ?thesis
          by (simp add: sensor_body_def cell_step_def sensor_cells_def Let_def)
      qed
    qed
  qed
qed


lemma sbp_self:
  assumes "wf_game (snd p)" "i < 3"
  shows "sensor_cells (snd (sensor_body rd clk dt i p)) i =
           cell_step (sensors_enabled (snd p) ! i) (rd i) (clk i) dt (max_mm (snd p))
             (targets (snd p) ! i) (TOLERANCE (snd p)) (HOLD_TIME (snd p)) (sensor_cells (snd p) i)"
    and "fst (sensor_body rd clk dt i p) =
           (fst p \<and> sensors_enabled (snd p) ! i \<and> rd i \<noteq> None
              \<and> unlocked (snd (sensor_body rd clk dt i p)) ! i)"
  using sb_self [of "snd p" i rd clk dt "fst p"] assms by simp_all

subsection \<open>draw_game\<close>

lemma draw_game_unfold:
  "draw_game rd clk dt g =
     sensor_body rd clk dt 2 (sensor_body rd clk dt 1 (sensor_body rd clk dt 0 (True, g)))"
  by (simp add: draw_game_def sensor_ids_def)

lemma draw_game_frame:
  "sensors_enabled (snd (draw_game rd clk dt g)) = sensors_enabled g"
  "targets (snd (draw_game rd clk dt g)) = targets g"
  "max_mm (snd (draw_game rd clk dt g)) = max_mm g"
  "TOLERANCE (snd (draw_game rd clk dt g)) = TOLERANCE g"
  "HOLD_TIME (snd (draw_game rd clk dt g)) = HOLD_TIME g"
  "DIFFICULTY (snd (draw_game rd clk dt g)) = DIFFICULTY g"
  "stage (snd (draw_game rd clk dt g)) = stage g"
  "timer_start (snd (draw_game rd clk dt g)) = timer_start g"
  "final_beat (snd (draw_game rd clk dt g)) = final_beat g"
  by (simp_all only: draw_game_unfold sbp_frame snd_conv)

lemma draw_game_wf: "wf_game g \<Longrightarrow> wf_game (snd (draw_game rd clk dt g))"
  by (simp only: draw_game_unfold sbp_wf snd_conv)

lemma draw_game_cells:
  assumes "wf_game g" "i < 3"
  shows "sensor_cells (snd (draw_game rd clk dt g)) i =
           cell_step (sensors_enabled g ! i) (rd i) (clk i) dt (max_mm g) (targets g ! i)
             (TOLERANCE g) (HOLD_TIME g) (sensor_cells g i)"
proof -
  let ?p0 = "sensor_body rd clk dt 0 (True, g)"
  let ?p1 = "sensor_body rd clk dt 1 ?p0"
  let ?p2 = "sensor_body rd clk dt 2 ?p1"
  have w0: "wf_game (snd ?p0)" and w1: "wf_game (snd ?p1)"
    using assms(1) by (simp_all only: sbp_wf snd_conv)
  from assms(2) consider "i = 0" | "i = 1" | "i = 2" by linarith
  then have "sensor_cells (snd ?p2) i =
           cell_step (sensors_enabled g ! i) (rd i) (clk i) dt (max_mm g) (targets g ! i)
             (TOLERANCE g) (HOLD_TIME g) (sensor_cells g i)"
  proof cases
    case 1
    have "sensor_cells (snd ?p2) 0 = sensor_cells (snd ?p0) 0"
      by (simp only: sbp_other [of 0 2] sbp_other [of 0 1]) 
    also have "\<dots> = cell_step (sensors_enabled g ! 0) (rd 0) (clk 0) dt (max_mm g) (targets g ! 0)
             (TOLERANCE g) (HOLD_TIME g) (sensor_cells g 0)"
      using sbp_self(1) [of "(True, g)" 0 rd clk dt] assms(1) by simp
    finally show ?thesis by (simp only: 1)
  next
    case 2
    have "sensor_cells (snd ?p2) 1 = sensor_cells (snd ?p1) 1"
      by (simp only: sbp_other [of 1 2])
    also have "\<dots> = cell_step (sensors_enabled (snd ?p0) ! 1) (rd 1) (clk 1) dt (max_mm (snd ?p0))
             (targets (snd ?p0) ! 1) (TOLERANCE (snd ?p0)) (HOLD_TIME (snd ?p0)) (sensor_cells (snd ?p0) 1)"
      using sbp_self(1) [OF w0, of 1 rd clk dt] by simp
    also have "\<dots> = cell_step (sensors_enabled g ! 1) (rd 1) (clk 1) dt (max_mm g) (targets g ! 1)
             (TOLERANCE g) (HOLD_TIME g) (sensor_cells g 1)"
      by (simp only: sbp_frame sbp_other [of 1 0] snd_conv)
    finally show ?thesis by (simp only: 2)
  next
    case 3
    have "sensor_cells (snd ?p2) 2
        = cell_step (sensors_enabled (snd ?p1) ! 2) (rd 2) (clk 2) dt (max_mm (snd ?p1))
             (targets (snd ?p1) ! 2) (TOLERANCE (snd ?p1)) (HOLD_TIME (snd ?p1)) (sensor_cells (snd ?p1) 2)"
      using sbp_self(1) [OF w1, of 2 rd clk dt] by simp
    also have "\<dots> = cell_step (sensors_enabled g ! 2) (rd 2) (clk 2) dt (max_mm g) (targets g ! 2)
             (TOLERANCE g) (HOLD_TIME g) (sensor_cells g 2)"
      by (simp only: sbp_frame sbp_other [of 2 1] sbp_other [of 2 0] snd_conv)
    finally show ?thesis by (simp only: 3)
  qed
  then show ?thesis by (simp only: draw_game_unfold)
qed

lemma draw_game_fst:
  assumes "wf_game g"
  shows "fst (draw_game rd clk dt g) =
     (\<forall>i<3. sensors_enabled g ! i \<and> rd i \<noteq> None \<and> unlocked (snd (draw_game rd clk dt g)) ! i)"
proof -
  let ?p0 = "sensor_body rd clk dt 0 (True, g)"
  let ?p1 = "sensor_body rd clk dt 1 ?p0"
  let ?p2 = "sensor_body rd clk dt 2 ?p1"
  have w0: "wf_game (snd ?p0)" and w1: "wf_game (snd ?p1)"
    using assms(1) by (simp_all only: sbp_wf snd_conv)
  have a0: "fst ?p0 = (sensors_enabled g ! 0 \<and> rd 0 \<noteq> None \<and> unlocked (snd ?p0) ! 0)"
    using sbp_self(2) [of "(True, g)" 0 rd clk dt] assms by simp
  have a1: "fst ?p1 = (fst ?p0 \<and> sensors_enabled g ! 1 \<and> rd 1 \<noteq> None \<and> unlocked (snd ?p1) ! 1)"
    using sbp_self(2) [OF w0, of 1 rd clk dt] by (simp only: sbp_frame snd_conv)
  have a2: "fst ?p2 = (fst ?p1 \<and> sensors_enabled g ! 2 \<and> rd 2 \<noteq> None \<and> unlocked (snd ?p2) ! 2)"
    using sbp_self(2) [OF w1, of 2 rd clk dt] by (simp only: sbp_frame snd_conv)
  have "sensor_cells (snd ?p2) 0 = sensor_cells (snd ?p0) 0"
    by (simp only: sbp_other [of 0 2] sbp_other [of 0 1])
  then have c0: "unlocked (snd ?p0) ! 0 = unlocked (snd ?p2) ! 0"
    by (simp add: sensor_cells_def)
  have "sensor_cells (snd ?p2) 1 = sensor_cells (snd ?p1) 1"
    by (simp only: sbp_other [of 1 2])
  then have c1: "unlocked (snd ?p1) ! 1 = unlocked (snd ?p2) ! 1"
    by (simp add: sensor_cells_def)
  have "fst ?p2 = (\<forall>i<3. sensors_enabled g ! i \<and> rd i \<noteq> None \<and> unlocked (snd ?p2) ! i)"
    unfolding all_lt_3 a2 a1 a0 c0 c1 by blast
  then show ?thesis by (simp only: draw_game_unfold)
qed

subsection \<open>Frames and runs\<close>

lemma sensor_ids_nth: "i < 3 \<Longrightarrow> map e sensor_ids ! i = e i"
  unfolding sensor_ids_def using all_lt_3 [of "\<lambda>i. map e [0, 1, 2] ! i = e i"] by simp

lemma enabled_update:
  "wf_game g \<Longrightarrow> wf_game (g\<lparr>sensors_enabled := map e sensor_ids\<rparr>)"
  "sensor_cells (g\<lparr>sensors_enabled := es\<rparr>) i = sensor_cells g i"
  by (simp_all add: wf_game_def sensor_ids_def sensor_cells_def)

lemma frame_step_frame:
  "targets (frame_step f g) = targets g"
  "max_mm (frame_step f g) = max_mm g"
  "TOLERANCE (frame_step f g) = TOLERANCE g"
  "HOLD_TIME (frame_step f g) = HOLD_TIME g"
  "DIFFICULTY (frame_step f g) = DIFFICULTY g"
  "stage (frame_step f g) = stage g"
  "timer_start (frame_step f g) = timer_start g"
  "final_beat (frame_step f g) = final_beat g"
  by (simp_all add: frame_step_def draw_game_frame)

lemma frame_step_wf: "wf_game g \<Longrightarrow> wf_game (frame_step f g)"
  by (simp add: frame_step_def draw_game_wf enabled_update)

lemma frame_step_cells:
  assumes "wf_game g" "i < 3"
  shows "sensor_cells (frame_step f g) i =
           cell_step (f_enabled f i) (f_rd f i) (f_clk f i) (f_dt f) (max_mm g) (targets g ! i)
             (TOLERANCE g) (HOLD_TIME g) (sensor_cells g i)"
proof -
  let ?g = "g\<lparr>sensors_enabled := map (f_enabled f) sensor_ids\<rparr>"
  have "wf_game ?g" using assms(1) by (rule enabled_update(1))
  from draw_game_cells [OF this assms(2), of "f_rd f" "f_clk f" "f_dt f"]
  show ?thesis
    by (simp add: frame_step_def enabled_update(2) sensor_ids_nth [OF assms(2)])
qed

lemma frame_step_idle:
  assumes "wf_game g" "i < 3" "reading g f i = None"
  shows "sensor_cells (frame_step f g) i = sensor_cells g i"
proof -
  from assms(3) have "\<not> f_enabled f i \<or> f_rd f i = None"
    by (auto simp: reading_def split: if_splits)
  then have "cell_step (f_enabled f i) (f_rd f i) (f_clk f i) (f_dt f) (max_mm g) (targets g ! i)
             (TOLERANCE g) (HOLD_TIME g) (sensor_cells g i) = sensor_cells g i"
    by (auto simp: cell_step_def sensor_cells_def)
  then show ?thesis by (simp only: frame_step_cells [OF assms(1,2)])
qed

lemma frame_step_reading:
  assumes "wf_game g" "i < 3" "reading g f i = Some r"
  shows "unlocked (frame_step f g) ! i =
           (unlocked g ! i \<or> (in_tolerance g i r
              \<and> (\<exists>t0. lock_start g ! i = Some t0 \<and> f_clk f i - t0 \<ge> HOLD_TIME g)))"
    and "lock_start (frame_step f g) ! i =
           (if unlocked g ! i then lock_start g ! i
            else if in_tolerance g i r
                 then (case lock_start g ! i of None \<Rightarrow> Some (f_clk f i) | Some t0 \<Rightarrow> Some t0)
                 else None)"
    and "locked_dist (frame_step f g) ! i =
           (if unlocked (frame_step f g) ! i \<and> locked_dist g ! i = None then Some r
            else locked_dist g ! i)"
proof -
  from assms(3) obtain raw where en: "f_enabled f i" and rd: "f_rd f i = Some raw"
    and r: "r = min (max raw 0) (max_mm g)"
    by (auto simp: reading_def split: if_splits)
  have c: "(unlocked (frame_step f g) ! i, lock_start (frame_step f g) ! i,
            locked_dist (frame_step f g) ! i, smooth_mm (frame_step f g) ! i) =
           cell_step True (Some raw) (f_clk f i) (f_dt f) (max_mm g) (targets g ! i)
             (TOLERANCE g) (HOLD_TIME g)
             (unlocked g ! i, lock_start g ! i, locked_dist g ! i, smooth_mm g ! i)"
    using frame_step_cells [OF assms(1,2), of f] en rd by (simp add: sensor_cells_def)
  from c show "unlocked (frame_step f g) ! i =
           (unlocked g ! i \<or> (in_tolerance g i r
              \<and> (\<exists>t0. lock_start g ! i = Some t0 \<and> f_clk f i - t0 \<ge> HOLD_TIME g)))"
    by (auto simp: cell_step_def Let_def in_tolerance_def r split: option.splits)
  from c show "lock_start (frame_step f g) ! i =
           (if unlocked g ! i then lock_start g ! i
            else if in_tolerance g i r
                 then (case lock_start g ! i of None \<Rightarrow> Some (f_clk f i) | Some t0 \<Rightarrow> Some t0)
                 else None)"
    by (auto simp: cell_step_def Let_def in_tolerance_def r split: option.splits)
  from c show "locked_dist (frame_step f g) ! i =
           (if unlocked (frame_step f g) ! i \<and> locked_dist g ! i = None then Some r
            else locked_dist g ! i)"
    by (auto simp: cell_step_def Let_def in_tolerance_def r split: option.splits)
qed

lemma play_append: "play (fs @ fs') g = play fs' (play fs g)"
  by (induction fs arbitrary: g) simp_all

lemma play_snoc: "play (fs @ [f]) g = frame_step f (play fs g)"
  by (simp add: play_append)

lemma play_frame:
  "targets (play fs g) = targets g"
  "max_mm (play fs g) = max_mm g"
  "TOLERANCE (play fs g) = TOLERANCE g"
  "HOLD_TIME (play fs g) = HOLD_TIME g"
  by (induction fs arbitrary: g) (simp_all add: frame_step_frame)

lemma play_wf: "wf_game g \<Longrightarrow> wf_game (play fs g)"
  by (induction fs arbitrary: g) (simp_all add: frame_step_wf)

lemma play_reading: "reading (play fs g) f i = reading g f i"
  by (simp add: reading_def play_frame)

lemma play_in_tolerance: "in_tolerance (play fs g) i r = in_tolerance g i r"
  by (simp add: in_tolerance_def play_frame)

subsection \<open>Completion and frozen distances\<close>

lemma wf_examples: "wf_game game0" "wf_game game_mid" "wf_game game_locked" "wf_game game_off"
  by (simp_all add: wf_game_def game0_def game_mid_def game_locked_def game_off_def)

text \<open>
  Claim C2, amended. \<open>draw_game\<close> returns true if and only if each of the three
  sensors is enabled, has a reading in this frame, and is locked at the end of the frame;
  so it returns false whenever a sensor is disabled, has no reading, or is still unlocked.
\<close>

theorem all_unlocked_iff:
  assumes "wf_game g"
  shows "fst (draw_game rd clk dt g) \<longleftrightarrow>
           (\<forall>i<3. sensors_enabled g ! i \<and> rd i \<noteq> None \<and> unlocked (snd (draw_game rd clk dt g)) ! i)"
  using assms by (rule draw_game_fst)

lemma draw_game_stays_locked:
  assumes "wf_game g" "i < 3" "unlocked g ! i"
  shows "unlocked (snd (draw_game rd clk dt g)) ! i"
proof -
  have "fst (cell_step (sensors_enabled g ! i) (rd i) (clk i) dt (max_mm g) (targets g ! i)
             (TOLERANCE g) (HOLD_TIME g) (sensor_cells g i))"
    using assms(3) by (simp add: cell_step_def sensor_cells_def Let_def split: option.split)
  then have "fst (sensor_cells (snd (draw_game rd clk dt g)) i)"
    by (simp only: draw_game_cells [OF assms(1,2)])
  then show ?thesis by (simp add: sensor_cells_def)
qed

lemma ex_locked:
  "unlocked game_locked ! 0" "unlocked game_locked ! 1" "unlocked game_locked ! 2"
  "unlocked game_off ! 1" "unlocked game_off ! 2"
  "sensors_enabled game_locked ! 0" "sensors_enabled game_locked ! 1" "sensors_enabled game_locked ! 2"
  "\<not> sensors_enabled game_off ! 0" "sensors_enabled game_off ! 1" "sensors_enabled game_off ! 2"
  by (simp_all add: game_locked_def game_off_def game_mid_def game0_def)

theorem all_unlocked_iff_witness:
  "wf_game game_locked
   \<and> fst (draw_game (f_rd frame_on_target) (f_clk frame_on_target) (f_dt frame_on_target) game_locked)"
proof -
  have "\<forall>i<3. unlocked (snd (draw_game (f_rd frame_on_target) (f_clk frame_on_target)
                 (f_dt frame_on_target) game_locked)) ! i"
    unfolding all_lt_3 using ex_locked wf_examples by (simp add: draw_game_stays_locked)
  moreover have "\<forall>i<3. sensors_enabled game_locked ! i \<and> f_rd frame_on_target i \<noteq> None"
    unfolding all_lt_3 using ex_locked by (simp add: frame_on_target_def)
  ultimately show ?thesis
    using all_unlocked_iff [OF wf_examples(3), of "f_rd frame_on_target" "f_clk frame_on_target"
            "f_dt frame_on_target"] wf_examples(3)
    by blast
qed

text \<open>
  Claim C2, as stated, fails: with sensor 0 switched off and the sensors 1 and 2 locked,
  every enabled sensor is locked and \<open>draw_game\<close> returns false.
\<close>

theorem all_unlocked_counterexample:
  "\<not> fst (draw_game (f_rd frame_on_target) (f_clk frame_on_target) (f_dt frame_on_target) game_off)
   \<and> \<not> sensors_enabled game_off ! 0
   \<and> sensors_enabled game_off ! 1
   \<and> unlocked (snd (draw_game (f_rd frame_on_target) (f_clk frame_on_target)
                    (f_dt frame_on_target) game_off)) ! 1
   \<and> sensors_enabled game_off ! 2
   \<and> unlocked (snd (draw_game (f_rd frame_on_target) (f_clk frame_on_target)
                    (f_dt frame_on_target) game_off)) ! 2"
proof -
  have "\<not> fst (draw_game (f_rd frame_on_target) (f_clk frame_on_target) (f_dt frame_on_target) game_off)"
    unfolding draw_game_fst [OF wf_examples(4)] all_lt_3 using ex_locked by simp
  then show ?thesis
    using ex_locked wf_examples by (simp add: draw_game_stays_locked)
qed

lemma lock_consistent_iff:
  "lock_consistent g \<longleftrightarrow> (\<forall>i<3. unlocked g ! i = (locked_dist g ! i \<noteq> None))"
  unfolding all_lt_3 by (simp add: lock_consistent_def sensor_ids_def)

lemma frame_step_cell_eqs:
  assumes "sensor_cells (frame_step f g) i = sensor_cells g i"
  shows "unlocked (frame_step f g) ! i = unlocked g ! i"
    "lock_start (frame_step f g) ! i = lock_start g ! i"
    "locked_dist (frame_step f g) ! i = locked_dist g ! i"
  using assms by (simp_all add: sensor_cells_def)

lemma frame_step_consistent:
  assumes "wf_game g" "lock_consistent g"
  shows "lock_consistent (frame_step f g)"
  unfolding lock_consistent_iff
proof (intro allI impI)
  fix i :: nat assume i: "i < 3"
  from assms(2) i have c: "unlocked g ! i = (locked_dist g ! i \<noteq> None)"
    by (simp add: lock_consistent_iff)
  show "unlocked (frame_step f g) ! i = (locked_dist (frame_step f g) ! i \<noteq> None)"
  proof (cases "reading g f i")
    case None
    from frame_step_cell_eqs [OF frame_step_idle [OF assms(1) i None]] c show ?thesis by simp
  next
    case (Some r)
    from frame_step_reading(1,3) [OF assms(1) i Some] c show ?thesis by auto
  qed
qed

lemma frame_step_frozen:
  assumes "wf_game g" "i < 3" "locked_dist g ! i = Some d"
  shows "locked_dist (frame_step f g) ! i = Some d"
proof (cases "reading g f i")
  case None
  from frame_step_cell_eqs [OF frame_step_idle [OF assms(1,2) None]] assms(3) show ?thesis by simp
next
  case (Some r)
  from frame_step_reading(3) [OF assms(1,2) Some] assms(3) show ?thesis by simp
qed

lemma frame_step_transition:
  assumes "wf_game g" "i < 3" "locked_dist g ! i = None" "\<not> unlocked g ! i"
    "unlocked (frame_step f g) ! i"
  shows "\<exists>r. reading g f i = Some r \<and> locked_dist (frame_step f g) ! i = Some r"
proof (cases "reading g f i")
  case None
  from frame_step_cell_eqs [OF frame_step_idle [OF assms(1,2) None]] assms(4,5) show ?thesis by simp
next
  case (Some r)
  from frame_step_reading(3) [OF assms(1,2) Some] assms(3,5) Some show ?thesis by simp
qed

lemma play_consistent: "wf_game g \<Longrightarrow> lock_consistent g \<Longrightarrow> lock_consistent (play fs g)"
  by (induction fs arbitrary: g) (simp_all add: frame_step_consistent frame_step_wf)

lemma play_frozen:
  "wf_game g \<Longrightarrow> i < 3 \<Longrightarrow> locked_dist g ! i = Some d \<Longrightarrow> locked_dist (play fs g) ! i = Some d"
  by (induction fs arbitrary: g) (simp_all add: frame_step_frozen frame_step_wf)

text \<open>
  Claim C8. In a round started by \<open>reset_game\<close>, the frozen distance of a sensor is
  unset at the start, and after every run of frames it is set if and only if the sensor
  is locked; in the frame in which the sensor becomes locked it is set to the clamped
  reading of that frame; once set, no further frame of the round changes it.
\<close>

theorem locked_dist_set_once:
  assumes "wf_game g0" "i < 3" "g = snd (reset_game sv st now us g0)"
  shows "locked_dist g ! i = None
     \<and> lock_consistent (play fs g)
     \<and> (locked_dist (play fs g) ! i = Some d \<longrightarrow> locked_dist (play (fs @ fs') g) ! i = Some d)
     \<and> (\<not> unlocked (play fs g) ! i \<and> unlocked (play (fs @ [f]) g) ! i
          \<longrightarrow> (\<exists>r. reading g f i = Some r \<and> locked_dist (play (fs @ [f]) g) ! i = Some r))"
proof -
  have w: "wf_game g" using assms(1,3) by (simp add: reset_game_wf)
  have c: "lock_consistent g" using assms(3) by (simp add: reset_game_consistent)
  have wp: "wf_game (play fs g)" using w by (rule play_wf)
  have cp: "lock_consistent (play fs g)" using w c by (rule play_consistent)
  have n: "locked_dist g ! i = None"
    using assms(2) all_lt_3 [of "\<lambda>i. locked_dist g ! i = None"]
    by (simp add: assms(3) reset_game_simps)
  have fr: "locked_dist (play fs g) ! i = Some d \<longrightarrow> locked_dist (play (fs @ fs') g) ! i = Some d"
    using play_frozen [OF wp assms(2)] by (simp add: play_append)
  have tr: "\<not> unlocked (play fs g) ! i \<and> unlocked (play (fs @ [f]) g) ! i
          \<longrightarrow> (\<exists>r. reading g f i = Some r \<and> locked_dist (play (fs @ [f]) g) ! i = Some r)"
  proof
    assume a: "\<not> unlocked (play fs g) ! i \<and> unlocked (play (fs @ [f]) g) ! i"
    with cp assms(2) have "locked_dist (play fs g) ! i = None"
      by (simp add: lock_consistent_iff)
    from frame_step_transition [OF wp assms(2) this, of f] a
    show "\<exists>r. reading g f i = Some r \<and> locked_dist (play (fs @ [f]) g) ! i = Some r"
      by (simp add: play_snoc play_reading)
  qed
  from n cp fr tr show ?thesis by blast
qed

subsection \<open>Hold time\<close>

lemma on_target_imp: "on_target g i f \<Longrightarrow> keeps_hold g i f"
  by (simp add: on_target_def keeps_hold_def split: option.splits)

lemma hold_invariant:
  assumes wf: "wf_game g" and i: "i < 3" and u0: "\<not> unlocked g ! i" and l0: "lock_start g ! i = None"
  shows "(\<not> unlocked (play fs g) ! i \<longrightarrow>
            (\<forall>t0. lock_start (play fs g) ! i = Some t0 \<longrightarrow>
               (\<exists>pre fj mid. fs = pre @ fj # mid \<and> on_target g i fj \<and> f_clk fj i = t0
                   \<and> (\<forall>f \<in> set mid. keeps_hold g i f))))
       \<and> (unlocked (play fs g) ! i \<longrightarrow>
            (\<exists>pre fj mid fk post. fs = pre @ fj # mid @ fk # post
                \<and> on_target g i fj \<and> on_target g i fk
                \<and> f_clk fk i - f_clk fj i \<ge> HOLD_TIME g
                \<and> (\<forall>f \<in> set mid. keeps_hold g i f)
                \<and> \<not> unlocked (play (pre @ fj # mid) g) ! i
                \<and> unlocked (play (pre @ fj # mid @ [fk]) g) ! i))"
proof -
  let ?PA = "\<lambda>fs t0. \<exists>pre fj mid. fs = pre @ fj # mid \<and> on_target g i fj \<and> f_clk fj i = t0
                   \<and> (\<forall>f \<in> set mid. keeps_hold g i f)"
  let ?PB = "\<lambda>fs. \<exists>pre fj mid fk post. fs = pre @ fj # mid @ fk # post
                \<and> on_target g i fj \<and> on_target g i fk
                \<and> f_clk fk i - f_clk fj i \<ge> HOLD_TIME g
                \<and> (\<forall>f \<in> set mid. keeps_hold g i f)
                \<and> \<not> unlocked (play (pre @ fj # mid) g) ! i
                \<and> unlocked (play (pre @ fj # mid @ [fk]) g) ! i"
  have "(\<not> unlocked (play fs g) ! i \<longrightarrow> (\<forall>t0. lock_start (play fs g) ! i = Some t0 \<longrightarrow> ?PA fs t0))
      \<and> (unlocked (play fs g) ! i \<longrightarrow> ?PB fs)"
  proof (induction fs rule: rev_induct)
    case Nil
    show ?case using u0 l0 by simp
  next
    case (snoc f fs)
    let ?h = "play fs g"
    let ?h' = "play (fs @ [f]) g"
    have wh: "wf_game ?h" using wf by (rule play_wf)
    have h': "?h' = frame_step f ?h" by (rule play_snoc)
    from snoc.IH have A: "\<not> unlocked ?h ! i \<Longrightarrow> lock_start ?h ! i = Some t0 \<Longrightarrow> ?PA fs t0" for t0
      by blast
    from snoc.IH have B: "unlocked ?h ! i \<Longrightarrow> ?PB fs" by blast
    have keepB: "?PB (fs @ [f])" if "unlocked ?h ! i"
    proof -
      from B [OF that] obtain pre fj mid fk post where
        d: "fs = pre @ fj # mid @ fk # post" "on_target g i fj" "on_target g i fk"
           "f_clk fk i - f_clk fj i \<ge> HOLD_TIME g" "\<forall>f \<in> set mid. keeps_hold g i f"
           "\<not> unlocked (play (pre @ fj # mid) g) ! i" "unlocked (play (pre @ fj # mid @ [fk]) g) ! i"
        by blast
      from d(1) have "fs @ [f] = pre @ fj # mid @ fk # (post @ [f])" by simp
      with d(2-7) show ?thesis by blast
    qed
    have keepA: "?PA (fs @ [f]) t0"
      if "\<not> unlocked ?h ! i" "lock_start ?h ! i = Some t0" "keeps_hold g i f" for t0
    proof -
      from A [OF that(1,2)] obtain pre fj mid where
        d: "fs = pre @ fj # mid" "on_target g i fj" "f_clk fj i = t0"
           "\<forall>f \<in> set mid. keeps_hold g i f"
        by blast
      from d(1) have "fs @ [f] = pre @ fj # (mid @ [f])" by simp
      moreover from d(4) that(3) have "\<forall>f' \<in> set (mid @ [f]). keeps_hold g i f'" by simp
      ultimately show ?thesis using d(2,3) by blast
    qed
    have finN: ?case if "\<not> unlocked ?h' ! i" "lock_start ?h' ! i = None"
      using that by simp
    have finA: ?case if "\<not> unlocked ?h' ! i" "lock_start ?h' ! i = Some t" "?PA (fs @ [f]) t" for t
      using that by simp
    have finB: ?case if "unlocked ?h' ! i" "?PB (fs @ [f])"
      using that by simp
    show ?case
    proof (cases "reading g f i")
      case None
      then have "reading ?h f i = None" by (simp add: play_reading)
      from frame_step_cell_eqs [OF frame_step_idle [OF wh i this]]
      have same: "unlocked ?h' ! i = unlocked ?h ! i" "lock_start ?h' ! i = lock_start ?h ! i"
        by (simp_all add: h')
      have nf: "keeps_hold g i f" using None by (simp add: keeps_hold_def)
      show ?thesis
      proof (cases "unlocked ?h ! i")
        case True
        with same keepB show ?thesis by (intro finB) simp_all
      next
        case u: False
        show ?thesis
        proof (cases "lock_start ?h ! i")
          case None
          with u same show ?thesis by (intro finN) simp_all
        next
          case (Some t0)
          from keepA [OF u Some nf] u Some same show ?thesis by (intro finA [of t0]) simp_all
        qed
      qed
    next
      case (Some r)
      then have rh: "reading ?h f i = Some r" by (simp add: play_reading)
      note st = frame_step_reading(1,2) [OF wh i rh, folded h', unfolded play_in_tolerance play_frame]
      show ?thesis
      proof (cases "unlocked ?h ! i")
        case True
        with st(1) have "unlocked ?h' ! i" by simp
        with keepB [OF True] show ?thesis by (intro finB)
      next
        case u: False
        show ?thesis
        proof (cases "in_tolerance g i r")
          case False
          with u st have "\<not> unlocked ?h' ! i" "lock_start ?h' ! i = None" by simp_all
          then show ?thesis by (rule finN)
        next
          case t: True
          then have ot: "on_target g i f" using Some by (simp add: on_target_def)
          show ?thesis
          proof (cases "lock_start ?h ! i")
            case None
            with u t st have n: "\<not> unlocked ?h' ! i" "lock_start ?h' ! i = Some (f_clk f i)"
              by simp_all
            have "fs @ [f] = fs @ f # []" by simp
            with ot have "?PA (fs @ [f]) (f_clk f i)"
              by (intro exI [of _ fs] exI [of _ f] exI [of _ "[]"]) simp
            with n show ?thesis by (intro finA)
          next
            case (Some t0)
            show ?thesis
            proof (cases "f_clk f i - t0 \<ge> HOLD_TIME g")
              case False
              with u t st Some have n: "\<not> unlocked ?h' ! i" "lock_start ?h' ! i = Some t0"
                by simp_all
              from keepA [OF u Some on_target_imp [OF ot]] n show ?thesis by (intro finA)
            next
              case True
              with u t st Some have n: "unlocked ?h' ! i" by simp
              from A [OF u Some] obtain pre fj mid where
                d: "fs = pre @ fj # mid" "on_target g i fj" "f_clk fj i = t0"
                   "\<forall>f \<in> set mid. keeps_hold g i f"
                by blast
              have e: "fs @ [f] = pre @ fj # mid @ f # []" using d(1) by simp
              have "\<not> unlocked (play (pre @ fj # mid) g) ! i" using u d(1) by simp
              moreover have "unlocked (play (pre @ fj # mid @ [f]) g) ! i" using n d(1) by simp
              ultimately have "?PB (fs @ [f])"
                using e d(2,3,4) ot True by blast
              with n show ?thesis by (intro finB)
            qed
          qed
        qed
      qed
    qed
  qed
  then show ?thesis .
qed

lemma play_idle:
  assumes "wf_game g" "i < 3" "reading g f i = None"
  shows "unlocked (play (fs @ [f]) g) ! i = unlocked (play fs g) ! i"
    and "lock_start (play (fs @ [f]) g) ! i = lock_start (play fs g) ! i"
proof -
  have w: "wf_game (play fs g)" using assms(1) by (rule play_wf)
  have r: "reading (play fs g) f i = None" using assms(3) by (simp add: play_reading)
  from frame_step_cell_eqs [OF frame_step_idle [OF w assms(2) r]]
  show "unlocked (play (fs @ [f]) g) ! i = unlocked (play fs g) ! i"
    and "lock_start (play (fs @ [f]) g) ! i = lock_start (play fs g) ! i"
    by (simp_all add: play_snoc)
qed

text \<open>
  Claim C4, amended. From the start of a round, a sensor that is locked after a run of
  frames was locked by a frame \<open>fk\<close> of the run that came after a frame \<open>fj\<close> such
  that: both gave the loop a reading inside the tolerance, the clock of \<open>fk\<close> is at
  least \<open>HOLD_TIME\<close> after the clock of \<open>fj\<close>, and every frame between them either
  gave the loop a reading inside the tolerance or was skipped for this sensor (the sensor
  disabled, or no fresh reading), whatever the sensor measured in a skipped frame: a
  skipped frame neither clears nor stops the hold clock. A reading outside the tolerance
  that the loop obtains on an unlocked sensor clears the lock start and does not lock; the
  next reading inside the tolerance starts the hold at the time of its own frame and does
  not lock. A frame that is skipped for the sensor leaves its lock and its lock start as
  they are.
\<close>

theorem lock_needs_full_hold:
  assumes "wf_game g" "i < 3" "\<not> unlocked g ! i" "lock_start g ! i = None"
  shows "(unlocked (play fs g) ! i \<longrightarrow>
            (\<exists>pre fj mid fk post. fs = pre @ fj # mid @ fk # post
                \<and> on_target g i fj \<and> on_target g i fk
                \<and> f_clk fk i - f_clk fj i \<ge> HOLD_TIME g
                \<and> (\<forall>f \<in> set mid. keeps_hold g i f)
                \<and> \<not> unlocked (play (pre @ fj # mid) g) ! i
                \<and> unlocked (play (pre @ fj # mid @ [fk]) g) ! i))
       \<and> (\<not> unlocked (play fs' g) ! i \<and> reading g f i = Some r \<and> \<not> in_tolerance g i r \<longrightarrow>
            \<not> unlocked (play (fs' @ [f]) g) ! i \<and> lock_start (play (fs' @ [f]) g) ! i = None)
       \<and> (\<not> unlocked (play fs' g) ! i \<and> lock_start (play fs' g) ! i = None
            \<and> reading g f i = Some r \<and> in_tolerance g i r \<longrightarrow>
            \<not> unlocked (play (fs' @ [f]) g) ! i
            \<and> lock_start (play (fs' @ [f]) g) ! i = Some (f_clk f i))
       \<and> (reading g f i = None \<longrightarrow>
            unlocked (play (fs' @ [f]) g) ! i = unlocked (play fs' g) ! i
            \<and> lock_start (play (fs' @ [f]) g) ! i = lock_start (play fs' g) ! i)"
proof (intro conjI impI)
  assume "unlocked (play fs g) ! i"
  with hold_invariant [OF assms, of fs]
  show "\<exists>pre fj mid fk post. fs = pre @ fj # mid @ fk # post
                \<and> on_target g i fj \<and> on_target g i fk
                \<and> f_clk fk i - f_clk fj i \<ge> HOLD_TIME g
                \<and> (\<forall>f \<in> set mid. keeps_hold g i f)
                \<and> \<not> unlocked (play (pre @ fj # mid) g) ! i
                \<and> unlocked (play (pre @ fj # mid @ [fk]) g) ! i"
    by blast
next
  have wh: "wf_game (play fs' g)" using assms(1) by (rule play_wf)
  {
    assume a: "\<not> unlocked (play fs' g) ! i \<and> reading g f i = Some r \<and> \<not> in_tolerance g i r"
    then have rh: "reading (play fs' g) f i = Some r" by (simp add: play_reading)
    note st = frame_step_reading(1,2) [OF wh assms(2) rh, unfolded play_in_tolerance play_frame]
    from st a show "\<not> unlocked (play (fs' @ [f]) g) ! i" by (simp add: play_snoc)
    from st a show "lock_start (play (fs' @ [f]) g) ! i = None" by (simp add: play_snoc)
  }
  {
    assume a: "\<not> unlocked (play fs' g) ! i \<and> lock_start (play fs' g) ! i = None
            \<and> reading g f i = Some r \<and> in_tolerance g i r"
    then have rh: "reading (play fs' g) f i = Some r" by (simp add: play_reading)
    note st = frame_step_reading(1,2) [OF wh assms(2) rh, unfolded play_in_tolerance play_frame]
    from st a show "\<not> unlocked (play (fs' @ [f]) g) ! i" by (simp add: play_snoc)
    from st a show "lock_start (play (fs' @ [f]) g) ! i = Some (f_clk f i)" by (simp add: play_snoc)
  }
  {
    assume a: "reading g f i = None"
    from play_idle(1) [OF assms(1,2) a]
    show "unlocked (play (fs' @ [f]) g) ! i = unlocked (play fs' g) ! i" .
    from play_idle(2) [OF assms(1,2) a]
    show "lock_start (play (fs' @ [f]) g) ! i = lock_start (play fs' g) ! i" .
  }
qed

lemma round1_simps:
  "wf_game round1" "\<not> unlocked round1 ! 0" "lock_start round1 ! 0 = None"
  "locked_dist round1 ! 0 = None" "targets round1 ! 0 = 600" "max_mm round1 = 1200"
  "TOLERANCE round1 = 5" "HOLD_TIME round1 = 3"
  by (simp_all add: round1_def reset_game_wf wf_examples reset_game_simps uniform_def)
     (simp_all add: reset_game_def game_mid_def game0_def)

lemma frame_at_reading: "reading round1 (frame_at t) 0 = Some 600"
  by (simp add: reading_def frame_at_def frame_on_target_def round1_simps)

lemma frame_at_on_target: "in_tolerance round1 0 600" "on_target round1 0 (frame_at t)"
  by (simp_all add: on_target_def frame_at_reading in_tolerance_def round1_simps)

lemma frame_at_clk: "f_clk (frame_at t) i = t"
  by (simp add: frame_at_def)

lemma ex_run1:
  "\<not> unlocked (play [frame_at 20] round1) ! 0"
  "lock_start (play [frame_at 20] round1) ! 0 = Some 20"
  using frame_step_reading(1,2) [OF round1_simps(1) _ frame_at_reading, of 20]
  by (simp_all add: round1_simps frame_at_on_target frame_at_clk)

lemma ex_run2: "unlocked (play [frame_at 20, frame_at 23] round1) ! 0"
proof -
  have w: "wf_game (play [frame_at 20] round1)" using round1_simps(1) by (rule play_wf)
  have r: "reading (play [frame_at 20] round1) (frame_at 23) 0 = Some 600"
    by (simp only: play_reading frame_at_reading)
  from frame_step_reading(1) [OF w _ r] ex_run1
  have "unlocked (frame_step (frame_at 23) (play [frame_at 20] round1)) ! 0"
    by (simp add: in_tolerance_def frame_step_frame frame_at_clk round1_simps)
  then show ?thesis by simp
qed

theorem lock_needs_full_hold_witness:
  "wf_game round1 \<and> \<not> unlocked round1 ! 0 \<and> lock_start round1 ! 0 = None
   \<and> unlocked (play [frame_at 20, frame_at 23] round1) ! 0
   \<and> (\<exists>pre fj mid fk post. [frame_at 20, frame_at 23] = pre @ fj # mid @ fk # post
         \<and> on_target round1 0 fj \<and> on_target round1 0 fk
         \<and> f_clk fk 0 - f_clk fj 0 \<ge> HOLD_TIME round1
         \<and> (\<forall>f \<in> set mid. keeps_hold round1 0 f)
         \<and> \<not> unlocked (play (pre @ fj # mid) round1) ! 0
         \<and> unlocked (play (pre @ fj # mid @ [fk]) round1) ! 0)"
  using lock_needs_full_hold [OF round1_simps(1) _ round1_simps(2,3), of "[frame_at 20, frame_at 23]"]
        round1_simps(1,2,3) ex_run2
  by simp

lemma play_lock:
  assumes "wf_game g" "i < 3" "reading g f i = Some r" "in_tolerance g i r"
    "lock_start (play fs g) ! i = Some t0" "f_clk f i - t0 \<ge> HOLD_TIME g"
  shows "unlocked (play (fs @ [f]) g) ! i"
proof -
  have w: "wf_game (play fs g)" using assms(1) by (rule play_wf)
  have r: "reading (play fs g) f i = Some r" using assms(3) by (simp add: play_reading)
  from frame_step_reading(1) [OF w assms(2) r, unfolded play_in_tolerance play_frame] assms(4,5,6)
  show ?thesis by (simp add: play_snoc)
qed

lemma frame_away_simps:
  "reading round1 (frame_away t) 0 = None" "f_rd (frame_away t) 0 = Some 0"
  "\<not> feed_on_target round1 0 (frame_away t)"
  by (simp_all add: reading_def frame_away_def feed_on_target_def in_tolerance_def round1_simps)

lemma ex_gap:
  "\<not> unlocked (play [frame_at 20, frame_away 21, frame_away 22] round1) ! 0"
  "lock_start (play [frame_at 20, frame_away 21, frame_away 22] round1) ! 0 = Some 20"
  "unlocked (play [frame_at 20, frame_away 21, frame_away 22, frame_at 23] round1) ! 0"
proof -
  have z: "(0::nat) < 3" by simp
  note i1 = play_idle [OF round1_simps(1) z frame_away_simps(1) [of 21], of "[frame_at 20]"]
  note i2 = play_idle [OF round1_simps(1) z frame_away_simps(1) [of 22], of "[frame_at 20, frame_away 21]"]
  from i1 i2 ex_run1 show a: "\<not> unlocked (play [frame_at 20, frame_away 21, frame_away 22] round1) ! 0"
    and b: "lock_start (play [frame_at 20, frame_away 21, frame_away 22] round1) ! 0 = Some 20"
    by simp_all
  from play_lock [OF round1_simps(1) z frame_at_reading frame_at_on_target(1) b, of 23]
  show "unlocked (play [frame_at 20, frame_away 21, frame_away 22, frame_at 23] round1) ! 0"
    by (simp add: frame_at_clk round1_simps)
qed

text \<open>
  Claim C4, as stated, fails: the hold of sensor 0 starts at 20; in the frames at 21 and
  22 the sensor is switched off while it measures 0 mm, 600 mm from its target; the frame
  at 23 locks the sensor, although its reading has not stayed inside the tolerance
  through the three seconds.
\<close>

theorem lock_needs_full_hold_counterexample:
  "unlocked (play [frame_at 20, frame_away 21, frame_away 22, frame_at 23] round1) ! 0
   \<and> \<not> unlocked (play [frame_at 20, frame_away 21, frame_away 22] round1) ! 0
   \<and> lock_start (play [frame_at 20, frame_away 21, frame_away 22] round1) ! 0 = Some 20
   \<and> f_rd (frame_away 21) 0 = Some 0
   \<and> \<not> feed_on_target round1 0 (frame_away 21)
   \<and> f_rd (frame_away 22) 0 = Some 0
   \<and> \<not> feed_on_target round1 0 (frame_away 22)"
  using ex_gap frame_away_simps(2,3) [of 21] frame_away_simps(2,3) [of 22] by simp

theorem locked_dist_set_once_witness:
  "wf_game game_mid \<and> (0::nat) < 3
   \<and> locked_dist round1 ! 0 = None
   \<and> \<not> unlocked (play [frame_at 20] round1) ! 0
   \<and> unlocked (play ([frame_at 20] @ [frame_at 23]) round1) ! 0
   \<and> locked_dist (play ([frame_at 20] @ [frame_at 23]) round1) ! 0 = Some 600
   \<and> locked_dist (play (([frame_at 20] @ [frame_at 23]) @ [frame_at 24, frame_at 25]) round1) ! 0 = Some 600"
proof -
  have z: "(0::nat) < 3" by simp
  note t1 = locked_dist_set_once [OF wf_examples(2) z round1_def, of "[frame_at 20]" _ _ "frame_at 23"]
  from t1 ex_run1(1) ex_run2
  have l: "locked_dist (play ([frame_at 20] @ [frame_at 23]) round1) ! 0 = Some 600"
    by (simp add: frame_at_reading)
  note t2 = locked_dist_set_once [OF wf_examples(2) z round1_def,
              of "[frame_at 20] @ [frame_at 23]" 600 "[frame_at 24, frame_at 25]"]
  from t2 l have "locked_dist (play (([frame_at 20] @ [frame_at 23]) @ [frame_at 24, frame_at 25]) round1) ! 0
                    = Some 600"
    by blast
  with l t1 ex_run1(1) ex_run2 wf_examples(2) show ?thesis by simp
qed

lemma ex_smooth: "smooth_mm (frame_step frame_on_target game0) ! 0 = 100"
proof -
  have z: "(0::nat) < 3" by simp
  have "sensor_cells (frame_step frame_on_target game0) 0 =
          cell_step True (Some 600) 20 (1 / 60) 1200 600 5 3 (False, None, None, 0)"
    by (simp add: frame_step_cells [OF wf_examples(1) z] frame_on_target_def)
       (simp add: game0_def sensor_cells_def)
  then show ?thesis by (simp add: sensor_cells_def cell_step_def alpha_def)
qed

text \<open>
  Claim C3, as stated, fails: after one frame from the initial state the smoothing state
  of sensor 0 is 100, and it is still 100 after \<open>reset_game\<close>, not the initial 0.
\<close>

theorem reset_game_keeps_smooth_counterexample:
  "smooth_mm (snd (reset_game 1 True 30 [0.5, 0.25, 0.75] (frame_step frame_on_target game0))) ! 0 = 100"
  by (simp add: reset_game_simps ex_smooth)

theorem reset_game_fields_witness:
  "0 < max_mm game_mid
   \<and> targets round1 = [600, 300, 900]
   \<and> 0 \<le> targets round1 ! 2 \<and> targets round1 ! 2 < max_mm game_mid
   \<and> unlocked round1 = [False, False, False]
   \<and> timer_start round1 = Some 19 \<and> smooth_mm round1 = [598, 297, 40]"
proof -
  have u: "\<forall>i<3. 0 \<le> [0.5, 0.25, 0.75::real] ! i \<and> [0.5, 0.25, 0.75::real] ! i < 1"
    unfolding all_lt_3 by simp
  have m: "0 < max_mm game_mid" "max_mm game_mid = 1200" "smooth_mm game_mid = [598, 297, 40]"
    by (simp_all add: game_mid_def game0_def)
  note t = reset_game_fields [of 1 True 19 "[0.5, 0.25, 0.75]" game_mid, folded round1_def]
  from t u m(1) have "\<forall>i<3. 0 \<le> targets round1 ! i \<and> targets round1 ! i < max_mm game_mid"
    by blast
  then have "0 \<le> targets round1 ! 2 \<and> targets round1 ! 2 < max_mm game_mid"
    by simp
  moreover from t have "targets round1 = [600, 300, 900]"
    by (simp add: uniform_def m(2))
  ultimately show ?thesis using t m by simp
qed

subsection \<open>Stage advance\<close>

lemma ex_done:
  "fst (draw_game (f_rd frame_on_target) (f_clk frame_on_target) (f_dt frame_on_target) game_locked)"
proof -
  have "\<forall>i<3. unlocked (snd (draw_game (f_rd frame_on_target) (f_clk frame_on_target)
                 (f_dt frame_on_target) game_locked)) ! i"
    unfolding all_lt_3 using ex_locked wf_examples by (simp add: draw_game_stays_locked)
  moreover have "\<forall>i<3. sensors_enabled game_locked ! i \<and> f_rd frame_on_target i \<noteq> None"
    unfolding all_lt_3 using ex_locked by (simp add: frame_on_target_def)
  ultimately show ?thesis
    unfolding draw_game_fst [OF wf_examples(3)] by blast
qed

text \<open>
  Claim C1. When \<open>draw_game\<close> reports completion on a stage before the last, the main
  loop advances the stage and calls \<open>reset_game\<close> with \<open>start_timer=False\<close>. Line
  106 of that call sets \<open>timer_start\<close> to \<open>None\<close>, and line 110 then raises
  \<open>NameError\<close>, which leaves the \<open>try\<close> of the loop: the start of the clock is lost
  instead of kept, and the frame ends in the exception.
\<close>

theorem stage_advance_clears_timer:
  assumes "\<not> final_beat g" "stage g < max_stage" "fst (draw_game rd clk dt g)"
  shows "fst (game_frame rd clk dt now us g) = Some NameError
       \<and> stage (snd (game_frame rd clk dt now us g)) = stage g + 1
       \<and> timer_start (snd (game_frame rd clk dt now us g)) = None"
proof -
  obtain d g' where dg: "draw_game rd clk dt g = (d, g')" by fastforce
  with assms(3) have d: "d" by simp
  from draw_game_frame(7,9) [of rd clk dt g] dg have f: "stage g' = stage g" "final_beat g' = final_beat g"
    by simp_all
  have "game_frame rd clk dt now us g = reset_game (stage g + 1) False now us (g'\<lparr>stage := stage g + 1\<rparr>)"
    using assms(1,2) d f by (simp add: game_frame_def dg stage_progress_def)
  then show ?thesis by (simp add: reset_game_raises reset_game_simps)
qed

theorem stage_advance_clears_timer_witness:
  "\<not> final_beat game_locked \<and> stage game_locked < max_stage \<and> timer_start game_locked = Some 10
   \<and> fst (draw_game (f_rd frame_on_target) (f_clk frame_on_target) (f_dt frame_on_target) game_locked)
   \<and> fst (game_frame (f_rd frame_on_target) (f_clk frame_on_target) (f_dt frame_on_target)
            20 [0.1, 0.2, 0.3] game_locked) = Some NameError
   \<and> stage (snd (game_frame (f_rd frame_on_target) (f_clk frame_on_target) (f_dt frame_on_target)
            20 [0.1, 0.2, 0.3] game_locked)) = 2
   \<and> timer_start (snd (game_frame (f_rd frame_on_target) (f_clk frame_on_target) (f_dt frame_on_target)
            20 [0.1, 0.2, 0.3] game_locked)) = None"
proof -
  have a: "\<not> final_beat game_locked" and b: "stage game_locked < max_stage"
    and c: "timer_start game_locked = Some 10" and d: "stage game_locked = 1"
    by (simp_all add: game_locked_def game_mid_def game0_def max_stage_def)
  from stage_advance_clears_timer [OF a b ex_done, of 20 "[0.1, 0.2, 0.3]"] a b c d ex_done
  show ?thesis by simp
qed

end
